theory Spec2Isabelle
  imports Main "HOL-Library.Word" "HOL-Library.Sublist"
begin

unbundle bit_operations_syntax

section \<open>USB boot tool for the CC1800: the host side of the boot-mode protocol\<close>

text \<open>
  The program (\<^verbatim>\<open>usbtool/main.c\<close>) talks to the boot ROM of the chip through libusb-0.1:
  five vendor control requests, two bulk transfers, three composite operations and a
  command line interpreter that chains \<^verbatim>\<open>write\<close>, \<^verbatim>\<open>read\<close> and \<^verbatim>\<open>exec\<close> commands.

  The embedding is shallow. Every C function is a HOL function of the same name. What
  the C code does to the outside (USB transfers, text on stdout and stderr, files) is
  appended to a trace of events; what the outside answers (return codes, received bytes,
  file contents, whether an allocation succeeds) is read from a \<open>world\<close>, a record of
  functions of the trace so far, so that a theorem about all worlds is a theorem about
  every behaviour of the device, the C library and the file system.
\<close>

subsection \<open>Machine types\<close>

text \<open>
  \<^verbatim>\<open>int\<close> is 32 bits wide, read in two's complement (\<open>sint\<close>, \<open><s\<close>). \<^verbatim>\<open>unsigned long\<close>
  is \<open>'l word\<close>: ISO C only promises at least 32 bits (32 on ILP32, 64 on LP64), so the
  width stays a type parameter of every function that handles an address or a length.
  \<^verbatim>\<open>char\<close> buffers are byte lists; C strings are \<open>string\<close>s without the final NUL.
\<close>

type_synonym cint = "32 word"
type_synonym byte = "8 word"

subsection \<open>Constants\<close>

text \<open>From \<^verbatim>\<open>main.c\<close>.\<close>

definition CC1800_VENDOR_ID :: "16 word" where "CC1800_VENDOR_ID = 0x2009"
definition CC1800_PRODUCT_ID :: "16 word" where "CC1800_PRODUCT_ID = 0x1218"

definition CC1800_REQ_GET_CPU_INFO :: cint where "CC1800_REQ_GET_CPU_INFO = 0x00"
definition CC1800_REQ_SET_ADDRESS :: cint where "CC1800_REQ_SET_ADDRESS = 0x01"
definition CC1800_REQ_SET_LENGTH :: cint where "CC1800_REQ_SET_LENGTH = 0x02"
definition CC1800_REQ_GET_STATUS :: cint where "CC1800_REQ_GET_STATUS = 0x03"
definition CC1800_REQ_EXECUTE :: cint where "CC1800_REQ_EXECUTE = 0x04"

definition TIMEOUT :: cint where "TIMEOUT = 5000"

text \<open>From the headers the program includes: \<^verbatim>\<open>usb.h\<close> of libusb-0.1, \<^verbatim>\<open>errno.h\<close> and
  \<^verbatim>\<open>stdio.h\<close> of Linux.\<close>

definition USB_ENDPOINT_IN :: cint where "USB_ENDPOINT_IN = 0x80"
definition USB_ENDPOINT_OUT :: cint where "USB_ENDPOINT_OUT = 0x00"
definition USB_TYPE_VENDOR :: cint where "USB_TYPE_VENDOR = push_bit 5 0x02"

definition EIO :: cint where "EIO = 5"
definition ENOMEM :: cint where "ENOMEM = 12"
definition EOF :: cint where "EOF = - 1"

subsection \<open>Events and the world\<close>

text \<open>
  The texts the program prints, one constructor for each format string of the source, with
  the arguments of the format. An address or a length is carried as the number printed.
\<close>

datatype message =
    Banner                    \<comment> \<open>\<^verbatim>\<open>CC1800 usbtool v1.0.0 by ...\<close>\<close>
  | Help                      \<comment> \<open>the usage text\<close>
  | ErrNoDevice               \<comment> \<open>\<^verbatim>\<open>ERROR: cannot find CC1800 device\<close>\<close>
  | FoundDevice string string \<comment> \<open>\<^verbatim>\<open>Found device %s at bus %s\<close>\<close>
  | ErrOpenDevice             \<comment> \<open>\<^verbatim>\<open>ERROR: cannot open device (%s)\<close>\<close>
  | ErrSetConfiguration       \<comment> \<open>\<^verbatim>\<open>ERROR: cannot set configuration\<close>\<close>
  | ErrClaimInterface         \<comment> \<open>\<^verbatim>\<open>ERROR: cannot claim interface\<close>\<close>
  | ErrBadValue string        \<comment> \<open>\<^verbatim>\<open>ERROR: bad value '%s'\<close>\<close>
  | ErrOpenFile string        \<comment> \<open>\<^verbatim>\<open>ERROR: cannot open file '%s'\<close>\<close>
  | ErrFileSize string        \<comment> \<open>\<^verbatim>\<open>ERROR: cannot get file size for '%s'\<close>\<close>
  | ErrAllocFile string       \<comment> \<open>\<^verbatim>\<open>ERROR: cannot allocate memory for file '%s'\<close>\<close>
  | ErrReadFile string        \<comment> \<open>\<^verbatim>\<open>ERROR: cannot read file '%s'\<close>\<close>
  | LoadedFile string nat     \<comment> \<open>\<^verbatim>\<open>Loaded file '%s' (%lu bytes)\<close>\<close>
  | ErrCreateFile string      \<comment> \<open>\<^verbatim>\<open>ERROR: cannot create file '%s'\<close>\<close>
  | ErrWriteFile string       \<comment> \<open>\<^verbatim>\<open>ERROR: cannot write file '%s'\<close>\<close>
  | ErrCpuInfo                \<comment> \<open>\<^verbatim>\<open>ERROR: cannot get CPU info\<close>\<close>
  | CpuInfo "byte list"       \<comment> \<open>\<^verbatim>\<open>CPU info: %s\<close>\<close>
  | ErrWriteArgs              \<comment> \<open>\<^verbatim>\<open>ERROR: write command requires two arguments ...\<close>\<close>
  | Uploading nat             \<comment> \<open>\<^verbatim>\<open>Uploading data to address 0x%08lX\<close>\<close>
  | ErrUpload                 \<comment> \<open>\<^verbatim>\<open>ERROR: CC1800 upload failed\<close>\<close>
  | ErrAlloc                  \<comment> \<open>\<^verbatim>\<open>ERROR: cannot allocate memory\<close>\<close>
  | DownloadingVerify         \<comment> \<open>\<^verbatim>\<open>Downloading data for verification\<close>\<close>
  | ErrDownload               \<comment> \<open>\<^verbatim>\<open>ERROR: CC1800 download failed\<close>\<close>
  | WarnMismatch              \<comment> \<open>\<^verbatim>\<open>WARNING: data mismatch\<close>\<close>
  | ErrReadArgs               \<comment> \<open>\<^verbatim>\<open>ERROR: read command requires two arguments ...\<close>\<close>
  | Downloading nat           \<comment> \<open>\<^verbatim>\<open>Downloading data from address 0x%08lX\<close>\<close>
  | Executing                 \<comment> \<open>\<^verbatim>\<open>Executing at last address\<close>\<close>
  | ErrExecute                \<comment> \<open>\<^verbatim>\<open>ERROR: CC1800 execute failed\<close>\<close>
  | ErrUnknown string         \<comment> \<open>\<^verbatim>\<open>ERROR: unknown command '%s'\<close>\<close>

text \<open>
  What the program does to the outside, in the order it does it. The USB events carry the
  arguments of the libusb call (the handle apart: the program opens one device).
\<close>

datatype event =
    ControlMsg cint cint cint cint cint cint
      \<comment> \<open>\<^verbatim>\<open>usb_control_msg\<close>: requesttype, request, value, index, size, timeout\<close>
  | BulkWrite cint "byte list" cint cint
      \<comment> \<open>\<^verbatim>\<open>usb_bulk_write\<close>: ep, bytes, size, timeout\<close>
  | BulkRead cint cint cint
      \<comment> \<open>\<^verbatim>\<open>usb_bulk_read\<close>: ep, size, timeout\<close>
  | SetConfiguration cint     \<comment> \<open>\<^verbatim>\<open>usb_set_configuration\<close>\<close>
  | ClaimInterface cint       \<comment> \<open>\<^verbatim>\<open>usb_claim_interface\<close>\<close>
  | UsbClose                  \<comment> \<open>\<^verbatim>\<open>usb_close\<close>\<close>
  | FileWritten string "byte list"
      \<comment> \<open>\<^verbatim>\<open>fwrite\<close> of a whole buffer to the named file\<close>
  | Printf message            \<comment> \<open>text on stdout\<close>
  | Stderr message            \<comment> \<open>text on stderr\<close>

text \<open>One device on a bus, as much of \<^verbatim>\<open>struct usb_device\<close> as the program reads.\<close>

record usb_device =
  idVendor :: "16 word"
  idProduct :: "16 word"
  filename :: string
  dirname :: string           \<comment> \<open>\<^verbatim>\<open>dev->bus->dirname\<close>\<close>

text \<open>
  The answers of the outside. Each function of a trace is asked with the trace that ends
  in the event of the call it answers.
\<close>

record world =
  usb_find_busses_ret :: cint
  usb_find_devices_ret :: cint
  usb_busses :: "usb_device list list"
      \<comment> \<open>\<^verbatim>\<open>usb_get_busses\<close>: the busses, each with its devices\<close>
  usb_open_ok :: bool
      \<comment> \<open>whether \<^verbatim>\<open>usb_open\<close> returns a handle\<close>
  usb_set_configuration_ret :: "event list \<Rightarrow> cint"
  usb_claim_interface_ret :: "event list \<Rightarrow> cint"
  usb_control_msg_ret :: "event list \<Rightarrow> cint \<times> byte list"
      \<comment> \<open>return value, and the bytes of the data phase of an IN request\<close>
  usb_bulk_write_ret :: "event list \<Rightarrow> cint"
  usb_bulk_read_ret :: "event list \<Rightarrow> cint \<times> byte list"
      \<comment> \<open>return value and the bytes received\<close>
  malloc_ret :: "event list \<Rightarrow> nat \<Rightarrow> byte list option"
      \<comment> \<open>\<open>None\<close> is \<^verbatim>\<open>NULL\<close>; otherwise the indeterminate first contents of the block\<close>
  alloca_ret :: "event list \<Rightarrow> nat \<Rightarrow> byte list option"
  fopen_rb_ret :: "event list \<Rightarrow> string \<Rightarrow> byte list option"
      \<comment> \<open>\<open>None\<close> is \<^verbatim>\<open>NULL\<close>; otherwise the contents of the file opened for reading\<close>
  fread_ok :: "event list \<Rightarrow> string \<Rightarrow> bool"
      \<comment> \<open>whether reading the opened file meets no I/O error\<close>
  fopen_wb_ok :: "event list \<Rightarrow> string \<Rightarrow> bool"
  fwrite_ok :: "event list \<Rightarrow> bool"

subsection \<open>The libusb transfers\<close>

text \<open>
  \<open>store_bytes rx buf\<close>: the buffer \<open>buf\<close> after \<open>rx\<close> was received into its start.
\<close>

definition store_bytes :: "byte list \<Rightarrow> byte list \<Rightarrow> byte list" where
  "store_bytes rx buf = take (length buf) (rx @ drop (length rx) buf)"

definition usb_control_msg ::
  "world \<Rightarrow> cint \<Rightarrow> cint \<Rightarrow> cint \<Rightarrow> cint \<Rightarrow> byte list \<Rightarrow> cint \<Rightarrow> cint \<Rightarrow> event list
    \<Rightarrow> cint \<times> byte list \<times> event list" where
  "usb_control_msg w requesttype request val index bytes size' timeout tr =
     (let tr' = tr @ [ControlMsg requesttype request val index size' timeout];
          (r, rx) = usb_control_msg_ret w tr'
      in (r,
          (if requesttype AND USB_ENDPOINT_IN \<noteq> 0
           then store_bytes (take (unat size') rx) bytes else bytes),
          tr'))"

definition usb_bulk_write ::
  "world \<Rightarrow> cint \<Rightarrow> byte list \<Rightarrow> cint \<Rightarrow> cint \<Rightarrow> event list \<Rightarrow> cint \<times> event list" where
  "usb_bulk_write w ep bytes size' timeout tr =
     (let tr' = tr @ [BulkWrite ep bytes size' timeout]
      in (usb_bulk_write_ret w tr', tr'))"

definition usb_bulk_read ::
  "world \<Rightarrow> cint \<Rightarrow> byte list \<Rightarrow> cint \<Rightarrow> cint \<Rightarrow> event list
    \<Rightarrow> cint \<times> byte list \<times> event list" where
  "usb_bulk_read w ep bytes size' timeout tr =
     (let tr' = tr @ [BulkRead ep size' timeout];
          (r, rx) = usb_bulk_read_ret w tr'
      in (r, store_bytes (take (unat size') rx) bytes, tr'))"

subsection \<open>CC1800 USB boot mode requests\<close>

text \<open>Get CPU information as a string.\<close>

definition cc1800_req_get_cpu_info ::
  "world \<Rightarrow> byte list \<Rightarrow> event list \<Rightarrow> cint \<times> byte list \<times> event list" where
  "cc1800_req_get_cpu_info w str tr =
     usb_control_msg w (USB_ENDPOINT_IN OR USB_TYPE_VENDOR) CC1800_REQ_GET_CPU_INFO
       0 0 str 8 TIMEOUT tr"

text \<open>Set read/write address. The call has no data phase (\<^verbatim>\<open>NULL\<close>, 0).\<close>

definition cc1800_req_set_address ::
  "world \<Rightarrow> 'l::len word \<Rightarrow> event list \<Rightarrow> cint \<times> event list" where
  "cc1800_req_set_address w addr tr =
     (let (r, _, tr') =
        usb_control_msg w (USB_ENDPOINT_OUT OR USB_TYPE_VENDOR) CC1800_REQ_SET_ADDRESS
          (ucast (drop_bit 16 addr AND 0xFFFF))
          (ucast (drop_bit 0 addr AND 0xFFFF))
          [] 0 TIMEOUT tr
      in (r, tr'))"

text \<open>
  Set read/write length. In \<^verbatim>\<open>len &= ~0x80000000\<close> the constant is an
  \<^verbatim>\<open>unsigned int\<close>, complemented at 32 bits and then widened with zeros.
\<close>

definition cc1800_req_set_length ::
  "world \<Rightarrow> 'l::len word \<Rightarrow> bool \<Rightarrow> event list \<Rightarrow> cint \<times> event list" where
  "cc1800_req_set_length w len wr tr =
     (let len = (if wr then len OR 0x80000000
                 else len AND ucast (NOT (0x80000000 :: 32 word)));
          (r, _, tr') =
        usb_control_msg w (USB_ENDPOINT_OUT OR USB_TYPE_VENDOR) CC1800_REQ_SET_LENGTH
          (ucast (drop_bit 16 len AND 0xFFFF))
          (ucast (drop_bit 0 len AND 0xFFFF))
          [] 0 TIMEOUT tr
      in (r, tr'))"

text \<open>Presumably get status.\<close>

definition cc1800_req_get_status ::
  "world \<Rightarrow> byte list \<Rightarrow> event list \<Rightarrow> cint \<times> byte list \<times> event list" where
  "cc1800_req_get_status w stat tr =
     usb_control_msg w (USB_ENDPOINT_IN OR USB_TYPE_VENDOR) CC1800_REQ_GET_STATUS
       0 0 stat 1 TIMEOUT tr"

text \<open>Execute at last set read/write address.\<close>

definition cc1800_req_execute :: "world \<Rightarrow> event list \<Rightarrow> cint \<times> event list" where
  "cc1800_req_execute w tr =
     (let (r, _, tr') =
        usb_control_msg w (USB_ENDPOINT_OUT OR USB_TYPE_VENDOR) CC1800_REQ_EXECUTE
          0 0 [] 0 TIMEOUT tr
      in (r, tr'))"

subsection \<open>Convenience composite functions\<close>

text \<open>
  CC1800 data upload: set address, set length and do a bulk transfer to end point 1.
  \<^verbatim>\<open>length\<close> is an \<^verbatim>\<open>int\<close>; passing it to \<^verbatim>\<open>cc1800_req_set_length\<close> converts it to
  \<^verbatim>\<open>unsigned long\<close> (\<open>scast\<close>).
\<close>

definition cc1800_upload ::
  "world \<Rightarrow> byte list \<Rightarrow> cint \<Rightarrow> 'l::len word \<Rightarrow> event list \<Rightarrow> cint \<times> event list" where
  "cc1800_upload w data length' address tr =
     (let (r, tr1) = cc1800_req_set_address w address tr in
      if r <s 0 then (r, tr1) else
      let (r, tr2) = cc1800_req_set_length w (scast length' :: 'l word) True tr1 in
      if r <s 0 then (r, tr2) else
      usb_bulk_write w 1 data length' TIMEOUT tr2)"

text \<open>CC1800 data download: set address, set length and do a bulk transfer from end point 1.\<close>

definition cc1800_download ::
  "world \<Rightarrow> byte list \<Rightarrow> cint \<Rightarrow> 'l::len word \<Rightarrow> event list
    \<Rightarrow> cint \<times> byte list \<times> event list" where
  "cc1800_download w data length' address tr =
     (let (r, tr1) = cc1800_req_set_address w address tr in
      if r <s 0 then (r, data, tr1) else
      let (r, tr2) = cc1800_req_set_length w (scast length' :: 'l word) False tr1 in
      if r <s 0 then (r, data, tr2) else
      usb_bulk_read w 1 data length' TIMEOUT tr2)"

text \<open>
  \<^verbatim>\<open>memcmp\<close> over the first \<open>n\<close> bytes. The program only tests the result against zero, so
  the model returns 1 for every difference.
\<close>

definition memcmp :: "byte list \<Rightarrow> byte list \<Rightarrow> nat \<Rightarrow> cint" where
  "memcmp a b n = (if take n a = take n b then 0 else 1)"

text \<open>
  Upload, verify (download and compare) and execute. \<^verbatim>\<open>alloca(length)\<close> and
  \<^verbatim>\<open>memcmp(.., length)\<close> convert the \<^verbatim>\<open>int\<close> to \<^verbatim>\<open>size_t\<close>, taken as wide as
  \<^verbatim>\<open>unsigned long\<close>.
\<close>

definition cc1800_execute ::
  "world \<Rightarrow> byte list \<Rightarrow> cint \<Rightarrow> 'l::len word \<Rightarrow> event list \<Rightarrow> cint \<times> event list" where
  "cc1800_execute w data length' address tr =
     (case alloca_ret w tr (unat (scast length' :: 'l word)) of
        None \<Rightarrow> (- ENOMEM, tr)
      | Some check \<Rightarrow>
          let (r, tr1) = cc1800_upload w data length' address tr in
          if r <s 0 then (r, tr1) else
          if r <s length' then (- EIO, tr1) else
          let (r, check, tr2) = cc1800_download w check length' address tr1 in
          if r <s 0 then (r, tr2) else
          if r <s length' then (- EIO, tr2) else
          if memcmp data check (unat (scast length' :: 'l word)) \<noteq> 0 then (- EIO, tr2) else
          cc1800_req_execute w tr2)"

subsection \<open>The C library: characters and \<^verbatim>\<open>sscanf\<close>\<close>

text \<open>
  \<^verbatim>\<open>sscanf\<close> is not code of the program; its two conversions \<^verbatim>\<open>%lu\<close> and
  \<^verbatim>\<open>%lx\<close> are written here after ISO C (7.21.6.2 with 7.22.1.4): white space is
  skipped; if the input ends there the call is an input failure and returns \<^verbatim>\<open>EOF\<close>;
  then come an optional sign, for \<^verbatim>\<open>%lx\<close> an optional \<^verbatim>\<open>0x\<close>, and digits of
  the base. Without a digit the call returns 0 and assigns nothing; otherwise it assigns the
  value as \<^verbatim>\<open>strtoul\<close> gives it (\<^verbatim>\<open>ULONG_MAX\<close> when the digits are out of range,
  whatever the sign; else the value, negated in the unsigned type when the sign is a
  minus) and returns 1. What follows the digits is left unread.
\<close>

definition str_at :: "string \<Rightarrow> nat \<Rightarrow> char" where
  \<comment> \<open>\<^verbatim>\<open>str[i]\<close>, with the NUL that ends the C string\<close>
  "str_at str i = (if i < length str then str ! i else CHR 0x00)"

definition toupper :: "char \<Rightarrow> char" where
  "toupper c = (let n = of_char c :: nat in if 97 \<le> n \<and> n \<le> 122 then char_of (n - 32) else c)"

definition isspace :: "char \<Rightarrow> bool" where
  "isspace c = (let n = of_char c :: nat in n = 32 \<or> (9 \<le> n \<and> n \<le> 13))"

definition digit_value :: "nat \<Rightarrow> char \<Rightarrow> nat option" where
  "digit_value base c =
     (let n = of_char c :: nat in
      if 48 \<le> n \<and> n \<le> 57 \<and> n - 48 < base then Some (n - 48)
      else if 97 \<le> n \<and> n \<le> 122 \<and> n - 87 < base then Some (n - 87)
      else if 65 \<le> n \<and> n \<le> 90 \<and> n - 55 < base then Some (n - 55)
      else None)"

fun scan_digits :: "nat \<Rightarrow> string \<Rightarrow> nat list" where
  "scan_digits base [] = []"
| "scan_digits base (c # s) =
     (case digit_value base c of None \<Rightarrow> [] | Some d \<Rightarrow> d # scan_digits base s)"

definition skip_0x :: "string \<Rightarrow> string" where
  "skip_0x s =
     (if str_at s 0 = CHR ''0'' \<and> toupper (str_at s 1) = CHR ''X''
         \<and> digit_value 16 (str_at s 2) \<noteq> None
      then drop 2 s else s)"

definition sscanf_ulong :: "nat \<Rightarrow> string \<Rightarrow> cint \<times> 'l::len word option" where
  "sscanf_ulong base str =
     (let s = dropWhile isspace str in
      if s = [] then (EOF, None) else
      let neg = (str_at s 0 = CHR ''-'');
          s = (if str_at s 0 = CHR ''-'' \<or> str_at s 0 = CHR ''+'' then drop 1 s else s);
          s = (if base = 16 then skip_0x s else s);
          ds = scan_digits base s
      in if ds = [] then (0, None) else
         let v = foldl (\<lambda>a d. a * int base + int d) 0 ds
         in (1, Some (if \<not> v < 2 ^ LENGTH('l) then - 1
                      else if neg then - word_of_int v else word_of_int v)))"

text \<open>\<^verbatim>\<open>sscanf(str, "%lu", addr)\<close> and \<^verbatim>\<open>sscanf(str, "%lx", addr)\<close>: the return value and
  \<^verbatim>\<open>*addr\<close> after the call.\<close>

definition sscanf_lu :: "string \<Rightarrow> 'l::len word \<Rightarrow> cint \<times> 'l word" where
  "sscanf_lu str addr =
     (case sscanf_ulong 10 str of (n, None) \<Rightarrow> (n, addr) | (n, Some v) \<Rightarrow> (n, v))"

definition sscanf_lx :: "string \<Rightarrow> 'l::len word \<Rightarrow> cint \<times> 'l word" where
  "sscanf_lx str addr =
     (case sscanf_ulong 16 str of (n, None) \<Rightarrow> (n, addr) | (n, Some v) \<Rightarrow> (n, v))"

subsection \<open>Arguments and files\<close>

text \<open>
  Scan a 32 bit address, checking for the "0x" hexadecimal format prefix. The result is
  the return value, \<^verbatim>\<open>*addr\<close> after the call and the trace.
\<close>

definition scan_ulong ::
  "string \<Rightarrow> 'l::len word \<Rightarrow> event list \<Rightarrow> cint \<times> 'l word \<times> event list" where
  "scan_ulong str addr tr =
     (if str_at str 0 = CHR ''0'' \<and> toupper (str_at str 1) = CHR ''X'' then
        (let (n, addr) = sscanf_lx (drop 2 str) addr in
         if n \<noteq> 0 then (0, addr, tr)
         else (- 1, addr, tr @ [Stderr (ErrBadValue str)]))
      else
        (let (n, addr) = sscanf_lu str addr in
         if \<not> (n \<noteq> 0) then (0, addr, tr)
         else (- 1, addr, tr @ [Stderr (ErrBadValue str)])))"

text \<open>
  Load a file into memory. The result is the return value, the loaded block, \<^verbatim>\<open>*len\<close>
  after the call and the trace. \<^verbatim>\<open>ftell\<close> at the end of the opened file gives its length;
  \<^verbatim>\<open>fread(*data, *len, 1, f)\<close> returns 1 when it has read one item of \<^verbatim>\<open>*len\<close> bytes and
  0 otherwise, so also when \<^verbatim>\<open>*len\<close> is 0.
\<close>

definition load_file ::
  "world \<Rightarrow> string \<Rightarrow> 'l::len word \<Rightarrow> event list
    \<Rightarrow> cint \<times> byte list \<times> 'l word \<times> event list" where
  "load_file w file len tr =
     (case fopen_rb_ret w tr file of
        None \<Rightarrow> (- 1, [], len, tr @ [Stderr (ErrOpenFile file)])
      | Some contents \<Rightarrow>
          let len = (of_nat (length contents) :: 'l word) in
          if len < 0 then (- 1, [], len, tr @ [Stderr (ErrFileSize file)]) else
          (case malloc_ret w tr (unat len) of
             None \<Rightarrow> (- 1, [], len, tr @ [Stderr (ErrAllocFile file)])
           | Some block \<Rightarrow>
               if \<not> (len \<noteq> 0 \<and> fread_ok w tr file)
               then (- 1, [], len, tr @ [Stderr (ErrReadFile file)])
               else (0, store_bytes (take (unat len) contents) block, len,
                     tr @ [Printf (LoadedFile file (unat len))])))"

text \<open>\<^verbatim>\<open>fwrite(data, len, 1, f)\<close> returns 0 when \<^verbatim>\<open>len\<close> is 0, as \<^verbatim>\<open>fread\<close> does.\<close>

definition save_file ::
  "world \<Rightarrow> string \<Rightarrow> byte list \<Rightarrow> 'l::len word \<Rightarrow> event list \<Rightarrow> cint \<times> event list" where
  "save_file w file data len tr =
     (if \<not> fopen_wb_ok w tr file then (- 1, tr @ [Stderr (ErrCreateFile file)]) else
      if \<not> (len \<noteq> 0 \<and> fwrite_ok w tr)
      then (- 1, tr @ [Stderr (ErrWriteFile file)])
      else (0, tr @ [FileWritten file (take (unat len) data)]))"

subsection \<open>The command line interpreter\<close>

text \<open>
  The locals of \<^verbatim>\<open>cc1800_fiddle\<close> that live across iterations of its loop, \<open>'u\<close>
  standing for \<^verbatim>\<open>unsigned long\<close>. \<^verbatim>\<open>addr\<close> and \<^verbatim>\<open>len\<close> are not initialised by the
  program.
\<close>

record 'u locals =
  cpu :: bool
  addr :: 'u
  len :: 'u

text \<open>
  How one pass through the body of the \<^verbatim>\<open>for\<close> loop ends: with a \<^verbatim>\<open>return\<close>, or at
  the end of the body with the value \<^verbatim>\<open>i\<close> then has (the loop's \<^verbatim>\<open>i++\<close> comes after).
\<close>

datatype outcome = Return cint | EndOfBody nat

text \<open>WRITE command, usage: write <addr> file\<close>

definition fiddle_write ::
  "world \<Rightarrow> nat \<Rightarrow> string list \<Rightarrow> nat \<Rightarrow> 'l::len word locals \<Rightarrow> event list
    \<Rightarrow> outcome \<times> 'l word locals \<times> event list" where
  "fiddle_write w argc argv i loc tr =
     (if argc - i < 3 then (Return (- 1), loc, tr @ [Stderr ErrWriteArgs]) else
      let (r, a, tr) = scan_ulong (argv ! (i + 1)) (addr loc) tr;
          loc = loc\<lparr>addr := a\<rparr> in
      if r <s 0 then (Return r, loc, tr) else
      let (r, data, l, tr) = load_file w (argv ! (i + 2)) (len loc) tr;
          loc = loc\<lparr>len := l\<rparr> in
      if r <s 0 then (Return r, loc, tr) else
      let tr = tr @ [Printf (Uploading (unat (addr loc)))];
          (r, tr) = cc1800_upload w data (ucast (len loc)) (addr loc) tr in
      if r <s 0 then (Return r, loc, tr @ [Stderr ErrUpload]) else
      (case malloc_ret w tr (unat (len loc)) of
         None \<Rightarrow> (Return r, loc, tr @ [Stderr ErrAlloc])
       | Some verify \<Rightarrow>
           let tr = tr @ [Printf DownloadingVerify];
               (r, verify, tr) = cc1800_download w verify (ucast (len loc)) (addr loc) tr in
           if r <s 0 then (Return r, loc, tr @ [Stderr ErrDownload]) else
           let r = memcmp data verify (unat (len loc)) in
           (EndOfBody (i + 2), loc, if r \<noteq> 0 then tr @ [Printf WarnMismatch] else tr)))"

text \<open>READ command, usage: read <addr> <len> <file>\<close>

definition fiddle_read ::
  "world \<Rightarrow> nat \<Rightarrow> string list \<Rightarrow> nat \<Rightarrow> 'l::len word locals \<Rightarrow> event list
    \<Rightarrow> outcome \<times> 'l word locals \<times> event list" where
  "fiddle_read w argc argv i loc tr =
     (if argc - i < 4 then (Return (- 1), loc, tr @ [Stderr ErrReadArgs]) else
      let (r, a, tr) = scan_ulong (argv ! (i + 1)) (addr loc) tr;
          loc = loc\<lparr>addr := a\<rparr> in
      if r <s 0 then (Return r, loc, tr) else
      let (r, l, tr) = scan_ulong (argv ! (i + 2)) (len loc) tr;
          loc = loc\<lparr>len := l\<rparr> in
      if r <s 0 then (Return r, loc, tr) else
      (case malloc_ret w tr (unat (len loc)) of
         None \<Rightarrow> (Return (- 1), loc, tr @ [Stderr ErrAlloc])
       | Some data \<Rightarrow>
           let tr = tr @ [Printf (Downloading (unat (addr loc)))];
               (r, data, tr) = cc1800_download w data (ucast (len loc)) (addr loc) tr in
           if r <s 0 then (Return r, loc, tr @ [Stderr ErrDownload]) else
           let (r, tr) = save_file w (argv ! (i + 3)) data (len loc) tr in
           if r <s 0 then (Return r, loc, tr) else
           (EndOfBody (i + 3), loc, tr)))"

text \<open>EXEC command\<close>

definition fiddle_exec ::
  "world \<Rightarrow> nat \<Rightarrow> 'l::len word locals \<Rightarrow> event list \<Rightarrow> outcome \<times> 'l word locals \<times> event list" where
  "fiddle_exec w i loc tr =
     (let tr = tr @ [Printf Executing];
          (r, tr) = cc1800_req_execute w tr in
      if r <s 0 then (Return r, loc, tr @ [Stderr ErrExecute]) else
      (EndOfBody i, loc, tr))"

text \<open>
  The body of the loop: the CPU info request, shown only the first time but executed each
  time, then the command \<^verbatim>\<open>argv[i]\<close>. \<^verbatim>\<open>s\<close> is 256 zero bytes before the request;
  \<^verbatim>\<open>%s\<close> prints it up to its first NUL.
\<close>

definition fiddle_body ::
  "world \<Rightarrow> nat \<Rightarrow> string list \<Rightarrow> nat \<Rightarrow> 'l::len word locals \<Rightarrow> event list
    \<Rightarrow> outcome \<times> 'l word locals \<times> event list" where
  "fiddle_body w argc argv i loc tr =
     (let (r, s, tr) = cc1800_req_get_cpu_info w (replicate 256 0) tr in
      if r <s 0 then (Return r, loc, tr @ [Stderr ErrCpuInfo]) else
      let (loc, tr) =
            (if \<not> cpu loc
             then (loc\<lparr>cpu := True\<rparr>, tr @ [Printf (CpuInfo (takeWhile (\<lambda>b. b \<noteq> 0) s))])
             else (loc, tr)) in
      if argv ! i = ''write'' then fiddle_write w argc argv i loc tr
      else if argv ! i = ''read'' then fiddle_read w argc argv i loc tr
      else if argv ! i = ''exec'' then fiddle_exec w i loc tr
      else (Return (- 1), loc, tr @ [Stderr (ErrUnknown (argv ! i))]))"

text \<open>
  The \<^verbatim>\<open>for\<close> loop, from the value \<open>i\<close> on. Indices are natural numbers: \<^verbatim>\<open>i\<close>
  counts up from 1, and \<^verbatim>\<open>main\<close> passes the number of strings in \<^verbatim>\<open>argv\<close> as
  \<^verbatim>\<open>argc\<close>. The loop reads \<^verbatim>\<open>argv[i]\<close> only when \<open>i < argc\<close> and the commands read
  their arguments only after the test of \<open>argc - i\<close>, so no read is out of range.
\<close>

function fiddle_loop ::
  "world \<Rightarrow> nat \<Rightarrow> string list \<Rightarrow> nat \<Rightarrow> 'l::len word locals \<Rightarrow> event list
    \<Rightarrow> cint \<times> 'l word locals \<times> event list" where
  "fiddle_loop w argc argv i loc tr =
     (if i < argc then
        (case fiddle_body w argc argv i loc tr of
           (Return r, loc', tr') \<Rightarrow> (r, loc', tr')
         | (EndOfBody i', loc', tr') \<Rightarrow> fiddle_loop w argc argv (i' + 1) loc' tr')
      else (0, loc, tr))"
  by pat_completeness auto
termination
proof (relation "measure (\<lambda>(w, argc, argv, i, loc, tr). argc - i)")
  show "wf (measure (\<lambda>(w, argc, argv, i, loc, tr). argc - i))"
    by simp
next
  fix w :: world and argc :: nat and argv :: "string list" and i :: nat
    and loc :: "'l::len word locals" and tr :: "event list"
    and o' :: outcome and y :: "'l word locals \<times> event list"
    and i' :: nat and loc' :: "'l word locals" and tr' :: "event list"
  assume lt: "i < argc"
    and s1: "(o', y) = fiddle_body w argc argv i loc tr"
    and s2: "o' = EndOfBody i'" and s3: "(loc', tr') = y"
  from s1 s2 s3 have body: "fiddle_body w argc argv i loc tr = (EndOfBody i', loc', tr')"
    by simp
  have "i \<le> i'"
    using body
    by (auto simp: fiddle_body_def fiddle_write_def fiddle_read_def fiddle_exec_def Let_def
        split: prod.splits if_splits option.splits)
  with lt show "((w, argc, argv, i' + 1, loc', tr'), (w, argc, argv, i, loc, tr))
      \<in> measure (\<lambda>(w, argc, argv, i, loc, tr). argc - i)"
    by simp
qed

declare fiddle_loop.simps [simp del]

text \<open>
  This is the actual command line interpreter. \<open>stack\<close> gives the indeterminate first
  values of \<^verbatim>\<open>addr\<close> and \<^verbatim>\<open>len\<close>; \<^verbatim>\<open>cpu\<close> starts at 0.
\<close>

definition cc1800_fiddle ::
  "world \<Rightarrow> nat \<Rightarrow> string list \<Rightarrow> 'l::len word locals \<Rightarrow> event list \<Rightarrow> cint \<times> event list" where
  "cc1800_fiddle w argc argv stack tr =
     (let (r, _, tr') = fiddle_loop w argc argv 1 (stack\<lparr>cpu := False\<rparr>) tr in (r, tr'))"

subsection \<open>Finding the device, and \<^verbatim>\<open>main\<close>\<close>

text \<open>The first device, bus by bus, with the vendor and product identifiers of the chip.\<close>

definition cc1800_find :: "world \<Rightarrow> usb_device option" where
  "cc1800_find w =
     (if usb_find_busses_ret w <s 0 then None else
      if usb_find_devices_ret w <s 0 then None else
      find (\<lambda>dev. idVendor dev = CC1800_VENDOR_ID \<and> idProduct dev = CC1800_PRODUCT_ID)
        (concat (usb_busses w)))"

text \<open>
  \<^verbatim>\<open>main\<close> starts with an empty trace; its result is the value it returns, which is the
  exit status the process asks for, and the trace of the whole run.
\<close>

definition main :: "world \<Rightarrow> string list \<Rightarrow> 'l::len word locals \<Rightarrow> cint \<times> event list" where
  "main w argv stack =
     (let argc = length argv;
          tr = [Printf Banner] in
      if argc < 2 then (1, tr @ [Stderr Help]) else
      (case cc1800_find w of
         None \<Rightarrow> (1, tr @ [Stderr ErrNoDevice])
       | Some dev \<Rightarrow>
           let tr = tr @ [Printf (FoundDevice (filename dev) (dirname dev))] in
           if \<not> usb_open_ok w then (1, tr @ [Stderr ErrOpenDevice]) else
           let tr = tr @ [SetConfiguration 1];
               r = usb_set_configuration_ret w tr;
               (r, tr) =
                 (if r <s 0 then (r, tr @ [Stderr ErrSetConfiguration])
                  else
                    let tr = tr @ [ClaimInterface 0];
                        r = usb_claim_interface_ret w tr in
                    if r <s 0 then (r, tr @ [Stderr ErrClaimInterface])
                    else cc1800_fiddle w argc argv stack tr)
           in (r, tr @ [UsbClose])))"

subsection \<open>The receiver's reading of the two 16-bit fields\<close>

text \<open>
  Modelled from the spec: the decoding on the device, which is no code of the program. A
  32-bit value carried as two 16-bit fields is \<open>high * 65536 + low\<close>, its bit 31 is the
  direction flag (set for a write) and its low 31 bits are the magnitude.
\<close>

definition recombine :: "cint \<Rightarrow> cint \<Rightarrow> int" where
  "recombine high low = uint high * 65536 + uint low"

definition decoded_is_write :: "cint \<Rightarrow> cint \<Rightarrow> bool" where
  "decoded_is_write high low = bit (recombine high low) 31"

definition decoded_magnitude :: "cint \<Rightarrow> cint \<Rightarrow> int" where
  "decoded_magnitude high low = recombine high low AND 0x7FFFFFFF"

subsection \<open>Reading a trace\<close>

text \<open>The two requests the properties below name, as the program sends them.\<close>

definition GET_CPU_INFO_request :: event where
  "GET_CPU_INFO_request =
     ControlMsg (USB_ENDPOINT_IN OR USB_TYPE_VENDOR) CC1800_REQ_GET_CPU_INFO 0 0 8 TIMEOUT"

definition EXECUTE_request :: event where
  "EXECUTE_request =
     ControlMsg (USB_ENDPOINT_OUT OR USB_TYPE_VENDOR) CC1800_REQ_EXECUTE 0 0 0 TIMEOUT"

text \<open>\<open>since tr tr'\<close>: the events of \<open>tr'\<close> that came after \<open>tr\<close>.\<close>

definition since :: "event list \<Rightarrow> event list \<Rightarrow> event list" where
  "since tr tr' = drop (length tr) tr'"

fun is_usb :: "event \<Rightarrow> bool" where
  "is_usb (ControlMsg _ _ _ _ _ _) = True"
| "is_usb (BulkWrite _ _ _ _) = True"
| "is_usb (BulkRead _ _ _) = True"
| "is_usb (SetConfiguration _) = True"
| "is_usb (ClaimInterface _) = True"
| "is_usb UsbClose = True"
| "is_usb _ = False"

fun is_execute :: "event \<Rightarrow> bool" where
  "is_execute (ControlMsg requesttype request val index size' timeout) =
     (request = CC1800_REQ_EXECUTE)"
| "is_execute _ = False"

fun is_stderr :: "event \<Rightarrow> bool" where
  "is_stderr (Stderr _) = True"
| "is_stderr _ = False"

subsection \<open>Runs in which every operation succeeds\<close>

text \<open>
  What it is for every operation of a command to succeed, read off the return values the
  program tests: the arguments are there, every numeric argument is scanned, the file is
  loaded or saved, every allocation gives a block, and every request and transfer returns
  a value that is not negative. The result of \<^verbatim>\<open>memcmp\<close> is not looked at: a verification
  mismatch is no failure of an operation.
\<close>

definition write_succeeds ::
  "world \<Rightarrow> nat \<Rightarrow> string list \<Rightarrow> nat \<Rightarrow> 'l::len word locals \<Rightarrow> event list \<Rightarrow> bool" where
  "write_succeeds w argc argv i loc tr =
     (\<not> argc - i < 3 \<and>
      (let (r1, a, tr1) = scan_ulong (argv ! (i + 1)) (addr loc) tr in
       \<not> r1 <s 0 \<and>
      (let (r2, data, l, tr2) = load_file w (argv ! (i + 2)) (len loc) tr1 in
       \<not> r2 <s 0 \<and>
      (let (r3, tr3) = cc1800_upload w data (ucast l) a (tr2 @ [Printf (Uploading (unat a))]) in
       \<not> r3 <s 0 \<and>
      (case malloc_ret w tr3 (unat l) of
         None \<Rightarrow> False
       | Some verify \<Rightarrow>
           \<not> fst (cc1800_download w verify (ucast l) a (tr3 @ [Printf DownloadingVerify]))
               <s 0)))))"

definition read_succeeds ::
  "world \<Rightarrow> nat \<Rightarrow> string list \<Rightarrow> nat \<Rightarrow> 'l::len word locals \<Rightarrow> event list \<Rightarrow> bool" where
  "read_succeeds w argc argv i loc tr =
     (\<not> argc - i < 4 \<and>
      (let (r1, a, tr1) = scan_ulong (argv ! (i + 1)) (addr loc) tr in
       \<not> r1 <s 0 \<and>
      (let (r2, l, tr2) = scan_ulong (argv ! (i + 2)) (len loc) tr1 in
       \<not> r2 <s 0 \<and>
      (case malloc_ret w tr2 (unat l) of
         None \<Rightarrow> False
       | Some data \<Rightarrow>
           (let (r3, data, tr3) =
                  cc1800_download w data (ucast l) a (tr2 @ [Printf (Downloading (unat a))]) in
            \<not> r3 <s 0 \<and>
            \<not> fst (save_file w (argv ! (i + 3)) data l tr3) <s 0)))))"

definition exec_succeeds :: "world \<Rightarrow> event list \<Rightarrow> bool" where
  "exec_succeeds w tr = (\<not> fst (cc1800_req_execute w (tr @ [Printf Executing])) <s 0)"

text \<open>
  One pass through the body of the loop: the probe succeeds, \<^verbatim>\<open>argv[i]\<close> is one of the
  three commands, and every operation of that command succeeds.
\<close>

definition body_succeeds ::
  "world \<Rightarrow> nat \<Rightarrow> string list \<Rightarrow> nat \<Rightarrow> 'l::len word locals \<Rightarrow> event list \<Rightarrow> bool" where
  "body_succeeds w argc argv i loc tr =
     (let (r, s, tr) = cc1800_req_get_cpu_info w (replicate 256 0) tr in
      \<not> r <s 0 \<and>
      (let (loc, tr) =
             (if \<not> cpu loc
              then (loc\<lparr>cpu := True\<rparr>, tr @ [Printf (CpuInfo (takeWhile (\<lambda>b. b \<noteq> 0) s))])
              else (loc, tr)) in
       if argv ! i = ''write'' then write_succeeds w argc argv i loc tr
       else if argv ! i = ''read'' then read_succeeds w argc argv i loc tr
       else if argv ! i = ''exec'' then exec_succeeds w tr
       else False))"

text \<open>
  The whole run of the loop from \<open>i\<close> on: every pass the program makes succeeds. The next
  pass starts where the program's own body leaves off; after a \<^verbatim>\<open>return\<close> there is no
  further pass, and nothing further to succeed.
\<close>

function run_succeeds ::
  "world \<Rightarrow> nat \<Rightarrow> string list \<Rightarrow> nat \<Rightarrow> 'l::len word locals \<Rightarrow> event list \<Rightarrow> bool" where
  "run_succeeds w argc argv i loc tr =
     (if i < argc then
        body_succeeds w argc argv i loc tr \<and>
        (case fiddle_body w argc argv i loc tr of
           (Return r, loc', tr') \<Rightarrow> True
         | (EndOfBody i', loc', tr') \<Rightarrow> run_succeeds w argc argv (i' + 1) loc' tr')
      else True)"
  by pat_completeness auto
termination
proof (relation "measure (\<lambda>(w, argc, argv, i, loc, tr). argc - i)")
  show "wf (measure (\<lambda>(w, argc, argv, i, loc, tr). argc - i))"
    by simp
next
  fix w :: world and argc :: nat and argv :: "string list" and i :: nat
    and loc :: "'l::len word locals" and tr :: "event list"
    and o' :: outcome and y :: "'l word locals \<times> event list"
    and i' :: nat and loc' :: "'l word locals" and tr' :: "event list"
  assume lt: "i < argc"
    and s1: "(o', y) = fiddle_body w argc argv i loc tr"
    and s2: "o' = EndOfBody i'" and s3: "(loc', tr') = y"
  from s1 s2 s3 have body: "fiddle_body w argc argv i loc tr = (EndOfBody i', loc', tr')"
    by simp
  have "i \<le> i'"
    using body
    by (auto simp: fiddle_body_def fiddle_write_def fiddle_read_def fiddle_exec_def Let_def
        split: prod.splits if_splits option.splits)
  with lt show "((w, argc, argv, i' + 1, loc', tr'), (w, argc, argv, i, loc, tr))
      \<in> measure (\<lambda>(w, argc, argv, i, loc, tr). argc - i)"
    by simp
qed

declare run_succeeds.simps [simp del]

text \<open>
  The whole process: there is a command, the device is found, opened, configured and
  claimed, and the run of the interpreter succeeds.
\<close>

definition main_succeeds :: "world \<Rightarrow> string list \<Rightarrow> 'l::len word locals \<Rightarrow> bool" where
  "main_succeeds w argv stack =
     (\<not> length argv < 2 \<and>
      (case cc1800_find w of
         None \<Rightarrow> False
       | Some dev \<Rightarrow>
           usb_open_ok w \<and>
           (let tr = [Printf Banner, Printf (FoundDevice (filename dev) (dirname dev)),
                      SetConfiguration 1] in
            \<not> usb_set_configuration_ret w tr <s 0 \<and>
            \<not> usb_claim_interface_ret w (tr @ [ClaimInterface 0]) <s 0 \<and>
            run_succeeds w (length argv) argv 1 (stack\<lparr>cpu := False\<rparr>)
              (tr @ [ClaimInterface 0]))))"

subsection \<open>Worlds for concrete runs\<close>

text \<open>
  A world with the chip on the first bus, where every allocation and every file operation
  succeeds and every file read has the contents \<open>file\<close>. The answers to control requests
  \<open>ctl\<close>, to bulk writes \<open>bw\<close> and to bulk reads \<open>br\<close> are parameters.
\<close>

definition bench_world ::
  "(event list \<Rightarrow> cint \<times> byte list) \<Rightarrow> cint \<Rightarrow> cint \<times> byte list \<Rightarrow> byte list \<Rightarrow> world" where
  "bench_world ctl bw br file =
     \<lparr> usb_find_busses_ret = 1,
       usb_find_devices_ret = 1,
       usb_busses = [[\<lparr> idVendor = 0x2009, idProduct = 0x1218,
                       filename = ''004'', dirname = ''001'' \<rparr>]],
       usb_open_ok = True,
       usb_set_configuration_ret = (\<lambda>_. 0),
       usb_claim_interface_ret = (\<lambda>_. 0),
       usb_control_msg_ret = ctl,
       usb_bulk_write_ret = (\<lambda>_. bw),
       usb_bulk_read_ret = (\<lambda>_. br),
       malloc_ret = (\<lambda>_ n. Some (replicate n 0)),
       alloca_ret = (\<lambda>_ n. Some (replicate n 0)),
       fopen_rb_ret = (\<lambda>_ _. Some file),
       fread_ok = (\<lambda>_ _. True),
       fopen_wb_ok = (\<lambda>_ _. True),
       fwrite_ok = (\<lambda>_. True) \<rparr>"

text \<open>Control requests that always succeed, and that succeed only for the first \<open>n\<close> events.\<close>

definition ctl_ok :: "event list \<Rightarrow> cint \<times> byte list" where
  "ctl_ok tr = (0, [])"

definition ctl_until :: "nat \<Rightarrow> event list \<Rightarrow> cint \<times> byte list" where
  "ctl_until n tr = (if length tr \<le> n then (0, []) else (- EIO, []))"

definition stack0 :: "32 word locals" where
  "stack0 = \<lparr> cpu = False, addr = 0, len = 0 \<rparr>"

section \<open>Lemmas\<close>

lemma word_FFFF_mask: "(0xFFFF :: 'a::len word) = mask 16"
  by (simp add: mask_eq_exp_minus_1)

lemma int_split_16: "(u::int) div 65536 mod 65536 * 65536 + u mod 65536 = u mod 2 ^ 32"
proof -
  have "u mod (65536 * 65536) = 65536 * (u div 65536 mod 65536) + u mod 65536"
    by (rule zmod_zmult2_eq) simp
  then show ?thesis by simp
qed

lemma recombine_fields:
  fixes x :: "'l::len word"
  assumes "32 \<le> LENGTH('l)"
  shows "recombine (ucast (drop_bit 16 x AND 0xFFFF)) (ucast (x AND 0xFFFF))
           = take_bit 32 (uint x)"
  unfolding recombine_def using assms
  apply (simp only: word_FFFF_mask flip: take_bit_eq_mask)
  apply (simp add: unsigned_ucast_eq unsigned_take_bit_eq unsigned_drop_bit_eq)
  apply (simp add: take_bit_eq_mod drop_bit_eq_div int_split_16)
  done

lemma hex7F_int: "(0x7FFFFFFF :: int) = mask 31"
  by (simp add: mask_eq_exp_minus_1)

lemma hex7F_word: "(0x7FFFFFFF :: 'a::len word) = mask 31"
  by (simp add: mask_eq_exp_minus_1)

lemma not_hex80: "NOT (0x80000000 :: 32 word) = mask 31"
  by (simp add: mask_eq_exp_minus_1)

lemma ucast_not_hex80: "(ucast (NOT (0x80000000 :: 32 word)) :: 'l::len word) = mask 31"
  unfolding not_hex80
  by (rule bit_word_eqI) (auto simp: bit_simps)

lemma bit_push_31_word:
  "bit (push_bit 31 (1::'l::len word)) n \<longleftrightarrow> n = 31 \<and> n < LENGTH('l)"
  by (simp only: bit_push_bit_iff bit_1_iff possible_bit_word) auto

lemma bit_hex80_word: "bit (0x80000000 :: 'l::len word) n \<longleftrightarrow> n = 31 \<and> n < LENGTH('l)"
  using bit_push_31_word [where 'l='l, of n] by simp

lemma bit_push_31_int: "bit (push_bit 31 (1::int)) n \<longleftrightarrow> n = 31"
  by (simp only: bit_push_bit_iff bit_1_iff) auto

lemma bit_hex80_int: "bit (0x80000000 :: int) n \<longleftrightarrow> n = 31"
  using bit_push_31_int [of n] by simp

lemma small_word_bits:
  fixes x :: "'l::len word"
  assumes "uint x < 2 ^ 32" "bit x n"
  shows "n < 32"
proof -
  have "take_bit 32 (uint x) = uint x"
    using assms(1) by (simp add: take_bit_int_eq_self_iff)
  then have "bit (uint x) n \<longleftrightarrow> bit (take_bit 32 (uint x)) n"
    by simp
  with assms(2) show ?thesis
    by (simp add: bit_simps)
qed

lemma small_word_take_bit:
  fixes x :: "'l::len word"
  assumes "uint x < 2 ^ 32"
  shows "take_bit 32 (uint x) = uint x"
  using assms by (simp add: take_bit_int_eq_self_iff)

lemma write_flag_set:
  fixes len :: "'l::len word"
  assumes "32 \<le> LENGTH('l)"
  shows "bit (take_bit 32 (uint (len OR 0x80000000))) 31"
  using assms by (simp add: bit_simps bit_hex80_word)

lemma write_flag_clear:
  fixes len :: "'l::len word"
  shows "\<not> bit (take_bit 32 (uint (len AND mask 31))) 31"
  by (simp add: bit_simps)

lemma magnitude_set:
  fixes len :: "'l::len word"
  assumes "32 \<le> LENGTH('l)"
  shows "take_bit 32 (uint (len OR 0x80000000)) AND mask 31 = uint (len AND mask 31)"
  using assms
  by (intro bit_eqI) (auto simp add: bit_simps bit_hex80_word bit_hex80_int)

lemma magnitude_clear:
  fixes len :: "'l::len word"
  shows "take_bit 32 (uint (len AND mask 31)) AND mask 31 = uint (len AND mask 31)"
  by (intro bit_eqI) (auto simp add: bit_simps)

lemma forced_set_small:
  fixes len :: "'l::len word"
  assumes "32 \<le> LENGTH('l)" "uint len < 2 ^ 32"
  shows "take_bit 32 (uint (len OR 0x80000000)) = uint (len OR 0x80000000)"
  using assms(1) small_word_bits [OF assms(2)]
  by (intro bit_eqI) (auto simp add: bit_simps bit_hex80_word bit_hex80_int)

lemma forced_clear_small:
  fixes len :: "'l::len word"
  shows "take_bit 32 (uint (len AND mask 31)) = uint (len AND mask 31)"
  by (intro bit_eqI) (auto simp add: bit_simps)

subsection \<open>What each request appends to the trace\<close>

lemma usb_control_msg_trace:
  "snd (snd (usb_control_msg w rt rq v ix bytes sz tmo tr)) = tr @ [ControlMsg rt rq v ix sz tmo]"
  by (simp add: usb_control_msg_def Let_def split: prod.splits)

lemma usb_control_msg_ret:
  "fst (usb_control_msg w rt rq v ix bytes sz tmo tr)
     = fst (usb_control_msg_ret w (tr @ [ControlMsg rt rq v ix sz tmo]))"
  by (simp add: usb_control_msg_def Let_def split: prod.splits)

lemma cc1800_req_set_address_eq:
  "cc1800_req_set_address w x tr =
     (let tr' = tr @ [ControlMsg (USB_ENDPOINT_OUT OR USB_TYPE_VENDOR) CC1800_REQ_SET_ADDRESS
                        (ucast (drop_bit 16 x AND 0xFFFF)) (ucast (x AND 0xFFFF))
                        0 TIMEOUT]
      in (fst (usb_control_msg_ret w tr'), tr'))"
  by (simp add: cc1800_req_set_address_def usb_control_msg_def Let_def split: prod.splits)

lemma cc1800_req_set_length_eq:
  "cc1800_req_set_length w x wr tr =
     (let y = (if wr then x OR 0x80000000 else x AND ucast (NOT (0x80000000 :: 32 word)));
          tr' = tr @ [ControlMsg (USB_ENDPOINT_OUT OR USB_TYPE_VENDOR) CC1800_REQ_SET_LENGTH
                        (ucast (drop_bit 16 y AND 0xFFFF)) (ucast (y AND 0xFFFF))
                        0 TIMEOUT]
      in (fst (usb_control_msg_ret w tr'), tr'))"
  unfolding cc1800_req_set_length_def usb_control_msg_def Let_def drop_bit_0 id_apply
  by (simp only: split: prod.splits) simp

lemma cc1800_req_execute_eq:
  "cc1800_req_execute w tr =
     (fst (usb_control_msg_ret w (tr @ [EXECUTE_request])), tr @ [EXECUTE_request])"
  by (simp add: cc1800_req_execute_def usb_control_msg_def EXECUTE_request_def Let_def
      split: prod.splits)

lemma sent_write:
  fixes len :: "'l::len word"
  assumes "32 \<le> LENGTH('l)" and "uint len < 2 ^ 32"
  shows "recombine (ucast (drop_bit 16 (len OR 0x80000000) AND 0xFFFF))
           (ucast ((len OR 0x80000000) AND 0xFFFF)) = uint (len OR 0x80000000)"
    and "bit (len OR 0x80000000) 31"
    and "decoded_is_write (ucast (drop_bit 16 (len OR 0x80000000) AND 0xFFFF))
           (ucast ((len OR 0x80000000) AND 0xFFFF))"
    and "decoded_magnitude (ucast (drop_bit 16 (len OR 0x80000000) AND 0xFFFF))
           (ucast ((len OR 0x80000000) AND 0xFFFF)) = uint (len AND 0x7FFFFFFF)"
proof -
  have r: "\<And>x :: 'l word.
      recombine (ucast (drop_bit 16 x AND 0xFFFF)) (ucast (x AND 0xFFFF)) = take_bit 32 (uint x)"
    by (rule recombine_fields [OF assms(1)])
  show "recombine (ucast (drop_bit 16 (len OR 0x80000000) AND 0xFFFF))
           (ucast ((len OR 0x80000000) AND 0xFFFF)) = uint (len OR 0x80000000)"
    unfolding r by (rule forced_set_small [OF assms])
  show "bit (len OR 0x80000000) 31"
    using assms(1) by (simp add: bit_simps bit_hex80_word)
  show "decoded_is_write (ucast (drop_bit 16 (len OR 0x80000000) AND 0xFFFF))
           (ucast ((len OR 0x80000000) AND 0xFFFF))"
    unfolding decoded_is_write_def r by (rule write_flag_set [OF assms(1)])
  show "decoded_magnitude (ucast (drop_bit 16 (len OR 0x80000000) AND 0xFFFF))
           (ucast ((len OR 0x80000000) AND 0xFFFF)) = uint (len AND 0x7FFFFFFF)"
    unfolding decoded_magnitude_def r hex7F_int hex7F_word
    by (rule magnitude_set [OF assms(1)])
qed

lemma sent_read:
  fixes len :: "'l::len word"
  assumes "32 \<le> LENGTH('l)"
  shows "recombine (ucast (drop_bit 16 (len AND 0x7FFFFFFF) AND 0xFFFF))
           (ucast ((len AND 0x7FFFFFFF) AND 0xFFFF)) = uint (len AND 0x7FFFFFFF)"
    and "\<not> bit (len AND 0x7FFFFFFF) 31"
    and "\<not> decoded_is_write (ucast (drop_bit 16 (len AND 0x7FFFFFFF) AND 0xFFFF))
           (ucast ((len AND 0x7FFFFFFF) AND 0xFFFF))"
    and "decoded_magnitude (ucast (drop_bit 16 (len AND 0x7FFFFFFF) AND 0xFFFF))
           (ucast ((len AND 0x7FFFFFFF) AND 0xFFFF)) = uint (len AND 0x7FFFFFFF)"
proof -
  have r: "\<And>x :: 'l word.
      recombine (ucast (drop_bit 16 x AND 0xFFFF)) (ucast (x AND 0xFFFF)) = take_bit 32 (uint x)"
    by (rule recombine_fields [OF assms(1)])
  show "recombine (ucast (drop_bit 16 (len AND 0x7FFFFFFF) AND 0xFFFF))
           (ucast ((len AND 0x7FFFFFFF) AND 0xFFFF)) = uint (len AND 0x7FFFFFFF)"
    unfolding r hex7F_word by (rule forced_clear_small)
  show "\<not> bit (len AND 0x7FFFFFFF) 31"
    unfolding hex7F_word by (simp add: bit_simps)
  show "\<not> decoded_is_write (ucast (drop_bit 16 (len AND 0x7FFFFFFF) AND 0xFFFF))
           (ucast ((len AND 0x7FFFFFFF) AND 0xFFFF))"
    unfolding decoded_is_write_def r hex7F_word by (rule write_flag_clear)
  show "decoded_magnitude (ucast (drop_bit 16 (len AND 0x7FFFFFFF) AND 0xFFFF))
           (ucast ((len AND 0x7FFFFFFF) AND 0xFFFF)) = uint (len AND 0x7FFFFFFF)"
    unfolding decoded_magnitude_def r hex7F_int hex7F_word
    by (rule magnitude_clear)
qed

lemma ucast_not_hex80_7F: "(ucast (NOT (0x80000000 :: 32 word)) :: 'l::len word) = 0x7FFFFFFF"
  unfolding ucast_not_hex80 hex7F_word ..

subsection \<open>What the composite functions append\<close>

lemma since_append [simp]: "since tr (tr @ evs) = evs"
  by (simp add: since_def)

lemma since_self [simp]: "since tr tr = []"
  by (simp add: since_def)

lemma usb_bulk_write_eq:
  "usb_bulk_write w ep bytes sz tmo tr =
     (usb_bulk_write_ret w (tr @ [BulkWrite ep bytes sz tmo]), tr @ [BulkWrite ep bytes sz tmo])"
  by (simp add: usb_bulk_write_def Let_def)

lemma usb_bulk_read_trace:
  "snd (snd (usb_bulk_read w ep bytes sz tmo tr)) = tr @ [BulkRead ep sz tmo]"
  by (simp add: usb_bulk_read_def Let_def split: prod.splits)

lemma set_address_new:
  "\<exists>ev. snd (cc1800_req_set_address w x tr) = tr @ [ev] \<and> \<not> is_execute ev"
  by (simp add: cc1800_req_set_address_eq Let_def CC1800_REQ_SET_ADDRESS_def
      CC1800_REQ_EXECUTE_def)

lemma set_length_new:
  "\<exists>ev. snd (cc1800_req_set_length w x wr tr) = tr @ [ev] \<and> \<not> is_execute ev"
  unfolding cc1800_req_set_length_eq Let_def
  by (simp add: CC1800_REQ_SET_LENGTH_def CC1800_REQ_EXECUTE_def)

lemma upload_new:
  "\<exists>evs. snd (cc1800_upload w d n a tr) = tr @ evs \<and> \<not> list_ex is_execute evs"
proof -
  obtain e1 where e1: "snd (cc1800_req_set_address w a tr) = tr @ [e1]" "\<not> is_execute e1"
    using set_address_new by blast
  obtain e2 where e2: "snd (cc1800_req_set_length w (scast n :: 'a word) True (tr @ [e1]))
      = (tr @ [e1]) @ [e2]" "\<not> is_execute e2"
    using set_length_new by blast
  show ?thesis
    using e1 e2
    by (auto simp: cc1800_upload_def usb_bulk_write_eq Let_def split: prod.splits)
qed

lemma download_new:
  "\<exists>evs. snd (snd (cc1800_download w b n a tr)) = tr @ evs \<and> \<not> list_ex is_execute evs"
proof -
  obtain e1 where e1: "snd (cc1800_req_set_address w a tr) = tr @ [e1]" "\<not> is_execute e1"
    using set_address_new by blast
  obtain e2 where e2: "snd (cc1800_req_set_length w (scast n :: 'a word) False (tr @ [e1]))
      = (tr @ [e1]) @ [e2]" "\<not> is_execute e2"
    using set_length_new by blast
  have "snd (snd (usb_bulk_read w 1 b n TIMEOUT (tr @ [e1, e2]))) = tr @ [e1, e2, BulkRead 1 n TIMEOUT]"
    by (simp add: usb_bulk_read_trace)
  then show ?thesis
    using e1 e2
    by (auto simp: cc1800_download_def Let_def split: prod.splits)
qed

lemma neg_errno: "- EIO <s 0" "- ENOMEM <s 0"
  by (simp_all add: EIO_def ENOMEM_def word_sless_alt)

lemma memcmp_zero: "memcmp a b n = 0 \<longleftrightarrow> take n a = take n b"
  by (simp add: memcmp_def)

subsection \<open>What the interpreter appends\<close>

lemma cc1800_req_get_cpu_info_eq:
  "cc1800_req_get_cpu_info w str tr =
     (fst (usb_control_msg_ret w (tr @ [GET_CPU_INFO_request])),
      store_bytes (take 8 (snd (usb_control_msg_ret w (tr @ [GET_CPU_INFO_request])))) str,
      tr @ [GET_CPU_INFO_request])"
  by (simp add: cc1800_req_get_cpu_info_def usb_control_msg_def GET_CPU_INFO_request_def
      USB_ENDPOINT_IN_def USB_TYPE_VENDOR_def Let_def split: prod.splits)

lemma minus_one_neg: "(- 1 :: cint) <s 0"
  by (simp add: word_sless_alt)

lemma zero_not_neg: "\<not> (0 :: cint) <s 0"
  by (simp add: word_sless_alt)

text \<open>Every function only appends to the trace, and a failure is reported on stderr.\<close>

lemma scan_ulong_appends:
  assumes "scan_ulong str a tr = (r, a', tr')"
  shows "\<exists>evs. tr' = tr @ evs \<and> \<not> list_ex is_usb evs \<and> (r <s 0 \<longrightarrow> list_ex is_stderr evs)"
  using assms
  by (auto simp: scan_ulong_def Let_def zero_not_neg split: if_splits prod.splits)

lemma load_file_appends:
  assumes "load_file w file l tr = (r, data, l', tr')"
  shows "\<exists>evs. tr' = tr @ evs \<and> \<not> list_ex is_usb evs \<and> (r <s 0 \<longrightarrow> list_ex is_stderr evs)"
  using assms
  by (auto simp: load_file_def Let_def zero_not_neg split: if_splits option.splits)

lemma save_file_appends:
  assumes "save_file w file data l tr = (r, tr')"
  shows "\<exists>evs. tr' = tr @ evs \<and> (r <s 0 \<longrightarrow> list_ex is_stderr evs)"
  using assms
  by (auto simp: save_file_def Let_def zero_not_neg split: if_splits)

lemma upload_appends:
  assumes "cc1800_upload w d n a tr = (r, tr')"
  shows "\<exists>evs. tr' = tr @ evs"
  using upload_new [of w d n a tr] assms by auto

lemma download_appends:
  assumes "cc1800_download w b n a tr = (r, b', tr')"
  shows "\<exists>evs. tr' = tr @ evs"
  using download_new [of w b n a tr] assms by auto

lemma fiddle_exec_appends:
  assumes "fiddle_exec w i loc tr = (out, loc', tr')"
  shows "\<exists>evs. tr' = tr @ evs \<and> (\<forall>r. out = Return r \<longrightarrow> list_ex is_stderr evs)"
  using assms
  by (auto simp: fiddle_exec_def cc1800_req_execute_eq Let_def split: if_splits)

lemma fiddle_write_appends:
  assumes "fiddle_write w argc argv i loc tr = (out, loc', tr')"
  shows "\<exists>evs. tr' = tr @ evs \<and> (\<forall>r. out = Return r \<longrightarrow> list_ex is_stderr evs)"
proof (cases "argc - i < 3")
  case True
  with assms show ?thesis by (auto simp: fiddle_write_def)
next
  case args: False
  obtain r1 a tr1 where scan: "scan_ulong (argv ! (i + 1)) (addr loc) tr = (r1, a, tr1)"
    by (metis prod_cases3)
  from scan_ulong_appends [OF scan] obtain e1 where
    e1: "tr1 = tr @ e1" "r1 <s 0 \<longrightarrow> list_ex is_stderr e1" by blast
  show ?thesis
  proof (cases "r1 <s 0")
    case True
    with assms args scan e1 show ?thesis by (auto simp: fiddle_write_def)
  next
    case ok1: False
    obtain r2 data l tr2 where load: "load_file w (argv ! (i + 2)) (len loc) tr1 = (r2, data, l, tr2)"
      by (metis prod_cases4)
    from load_file_appends [OF load] obtain e2 where
      e2: "tr2 = tr1 @ e2" "r2 <s 0 \<longrightarrow> list_ex is_stderr e2" by blast
    show ?thesis
    proof (cases "r2 <s 0")
      case True
      with assms args scan ok1 load e1 e2 show ?thesis by (auto simp: fiddle_write_def)
    next
      case ok2: False
      obtain r3 tr3 where up: "cc1800_upload w data (ucast l) a (tr2 @ [Printf (Uploading (unat a))]) = (r3, tr3)"
        by (metis prod.exhaust)
      from upload_appends [OF up] obtain e3 where e3: "tr3 = (tr2 @ [Printf (Uploading (unat a))]) @ e3"
        by blast
      show ?thesis
      proof (cases "r3 <s 0")
        case True
        with assms args scan ok1 load ok2 up e1 e2 e3 show ?thesis
          by (auto simp: fiddle_write_def)
      next
        case ok3: False
        show ?thesis
        proof (cases "malloc_ret w tr3 (unat l)")
          case None
          with assms args scan ok1 load ok2 up ok3 e1 e2 e3 show ?thesis
            by (auto simp: fiddle_write_def)
        next
          case (Some verify)
          obtain r4 verify' tr4 where down:
            "cc1800_download w verify (ucast l) a (tr3 @ [Printf DownloadingVerify]) = (r4, verify', tr4)"
            by (metis prod_cases3)
          from download_appends [OF down] obtain e4 where
            e4: "tr4 = (tr3 @ [Printf DownloadingVerify]) @ e4" by blast
          from assms args scan ok1 load ok2 up ok3 Some down e1 e2 e3 e4 show ?thesis
            by (auto simp: fiddle_write_def Let_def split: if_splits)
        qed
      qed
    qed
  qed
qed



lemma fiddle_read_appends:
  assumes "fiddle_read w argc argv i loc tr = (out, loc', tr')"
  shows "\<exists>evs. tr' = tr @ evs \<and> (\<forall>r. out = Return r \<longrightarrow> list_ex is_stderr evs)"
proof (cases "argc - i < 4")
  case True
  with assms show ?thesis by (auto simp: fiddle_read_def)
next
  case args: False
  obtain r1 a tr1 where scan1: "scan_ulong (argv ! (i + 1)) (addr loc) tr = (r1, a, tr1)"
    by (metis prod_cases3)
  from scan_ulong_appends [OF scan1] obtain e1 where
    e1: "tr1 = tr @ e1" "r1 <s 0 \<longrightarrow> list_ex is_stderr e1" by blast
  show ?thesis
  proof (cases "r1 <s 0")
    case True
    with assms args scan1 e1 show ?thesis by (auto simp: fiddle_read_def)
  next
    case ok1: False
    obtain r2 l tr2 where scan2: "scan_ulong (argv ! (i + 2)) (len loc) tr1 = (r2, l, tr2)"
      by (metis prod_cases3)
    from scan_ulong_appends [OF scan2] obtain e2 where
      e2: "tr2 = tr1 @ e2" "r2 <s 0 \<longrightarrow> list_ex is_stderr e2" by blast
    show ?thesis
    proof (cases "r2 <s 0")
      case True
      with assms args scan1 ok1 scan2 e1 e2 show ?thesis by (auto simp: fiddle_read_def)
    next
      case ok2: False
      show ?thesis
      proof (cases "malloc_ret w tr2 (unat l)")
        case None
        with assms args scan1 ok1 scan2 ok2 e1 e2 show ?thesis
          by (auto simp: fiddle_read_def)
      next
        case (Some data)
        obtain r3 data' tr3 where down:
          "cc1800_download w data (ucast l) a (tr2 @ [Printf (Downloading (unat a))]) = (r3, data', tr3)"
          by (metis prod_cases3)
        from download_appends [OF down] obtain e3 where
          e3: "tr3 = (tr2 @ [Printf (Downloading (unat a))]) @ e3" by blast
        show ?thesis
        proof (cases "r3 <s 0")
          case True
          with assms args scan1 ok1 scan2 ok2 Some down e1 e2 e3 show ?thesis
            by (auto simp: fiddle_read_def)
        next
          case ok3: False
          obtain r4 tr4 where save: "save_file w (argv ! (i + 3)) data' l tr3 = (r4, tr4)"
            by (metis prod.exhaust)
          from save_file_appends [OF save] obtain e4 where
            e4: "tr4 = tr3 @ e4" "r4 <s 0 \<longrightarrow> list_ex is_stderr e4" by blast
          from assms args scan1 ok1 scan2 ok2 Some down ok3 save e1 e2 e3 e4 show ?thesis
            by (auto simp: fiddle_read_def Let_def split: if_splits)
        qed
      qed
    qed
  qed
qed

lemma fiddle_body_probe_fails:
  assumes "fst (usb_control_msg_ret w (tr @ [GET_CPU_INFO_request])) <s 0"
  shows "fiddle_body w argc argv i loc tr =
           (Return (fst (usb_control_msg_ret w (tr @ [GET_CPU_INFO_request]))), loc,
            tr @ [GET_CPU_INFO_request, Stderr ErrCpuInfo])"
  using assms by (simp add: fiddle_body_def cc1800_req_get_cpu_info_eq)

text \<open>The state in which the body dispatches on \<^verbatim>\<open>argv[i]\<close> when the probe succeeded.\<close>

lemma fiddle_body_dispatch:
  assumes "\<not> fst (usb_control_msg_ret w (tr @ [GET_CPU_INFO_request])) <s 0"
  shows "fiddle_body w argc argv i loc tr =
     (let s = store_bytes (take 8 (snd (usb_control_msg_ret w (tr @ [GET_CPU_INFO_request]))))
                (replicate 256 0);
          shown = (if cpu loc then [] else [Printf (CpuInfo (takeWhile (\<lambda>b. b \<noteq> 0) s))]);
          loc1 = (if cpu loc then loc else loc\<lparr>cpu := True\<rparr>);
          tr1 = tr @ GET_CPU_INFO_request # shown
      in if argv ! i = ''write'' then fiddle_write w argc argv i loc1 tr1
         else if argv ! i = ''read'' then fiddle_read w argc argv i loc1 tr1
         else if argv ! i = ''exec'' then fiddle_exec w i loc1 tr1
         else (Return (- 1), loc1, tr1 @ [Stderr (ErrUnknown (argv ! i))]))"
  using assms by (simp add: fiddle_body_def cc1800_req_get_cpu_info_eq Let_def)

lemma fiddle_body_appends:
  assumes "fiddle_body w argc argv i loc tr = (out, loc', tr')"
  shows "\<exists>evs. tr' = tr @ GET_CPU_INFO_request # evs
           \<and> (\<forall>r. out = Return r \<longrightarrow> list_ex is_stderr evs)"
proof (cases "fst (usb_control_msg_ret w (tr @ [GET_CPU_INFO_request])) <s 0")
  case True
  from assms show ?thesis
    unfolding fiddle_body_probe_fails [OF True] by auto
next
  case False
  define s where "s = store_bytes (take 8 (snd (usb_control_msg_ret w (tr @ [GET_CPU_INFO_request]))))
                (replicate 256 0)"
  define shown where "shown = (if cpu loc then [] else [Printf (CpuInfo (takeWhile (\<lambda>b. b \<noteq> 0) s))])"
  define loc1 where "loc1 = (if cpu loc then loc else loc\<lparr>cpu := True\<rparr>)"
  define tr1 where "tr1 = tr @ GET_CPU_INFO_request # shown"
  have body: "fiddle_body w argc argv i loc tr =
      (if argv ! i = ''write'' then fiddle_write w argc argv i loc1 tr1
       else if argv ! i = ''read'' then fiddle_read w argc argv i loc1 tr1
       else if argv ! i = ''exec'' then fiddle_exec w i loc1 tr1
       else (Return (- 1), loc1, tr1 @ [Stderr (ErrUnknown (argv ! i))]))"
    unfolding fiddle_body_dispatch [OF False] Let_def s_def shown_def loc1_def tr1_def ..
  have "\<exists>evs. tr' = tr1 @ evs \<and> (\<forall>r. out = Return r \<longrightarrow> list_ex is_stderr evs)"
    using assms fiddle_write_appends [of w argc argv i loc1 tr1 out loc' tr']
      fiddle_read_appends [of w argc argv i loc1 tr1 out loc' tr']
      fiddle_exec_appends [of w i loc1 tr1 out loc' tr']
    unfolding body by (auto split: if_splits)
  then obtain evs where "tr' = tr1 @ evs" "\<forall>r. out = Return r \<longrightarrow> list_ex is_stderr evs"
    by blast
  then have "tr' = tr @ GET_CPU_INFO_request # (shown @ evs)"
    "\<forall>r. out = Return r \<longrightarrow> list_ex is_stderr (shown @ evs)"
    by (auto simp: tr1_def)
  then show ?thesis by blast
qed

lemma fiddle_loop_done:
  "\<not> i < argc \<Longrightarrow> fiddle_loop w argc argv i loc tr = (0, loc, tr)"
  by (subst fiddle_loop.simps) simp

lemma fiddle_loop_return:
  "i < argc \<Longrightarrow> fiddle_body w argc argv i loc tr = (Return r, loc', tr')
    \<Longrightarrow> fiddle_loop w argc argv i loc tr = (r, loc', tr')"
  by (subst fiddle_loop.simps) simp

lemma fiddle_loop_next:
  "i < argc \<Longrightarrow> fiddle_body w argc argv i loc tr = (EndOfBody i', loc', tr')
    \<Longrightarrow> fiddle_loop w argc argv i loc tr = fiddle_loop w argc argv (i' + 1) loc' tr'"
  by (subst fiddle_loop.simps) simp

lemma fiddle_loop_appends:
  "fiddle_loop w argc argv i loc tr = (r, loc', tr')
    \<Longrightarrow> \<exists>evs. tr' = tr @ evs \<and> (r \<noteq> 0 \<longrightarrow> list_ex is_stderr evs)"
proof (induction w argc argv i loc tr arbitrary: r loc' tr' rule: fiddle_loop.induct)
  case (1 w argc argv i loc tr)
  show ?case
  proof (cases "i < argc")
    case False
    with "1.prems" show ?thesis by (simp add: fiddle_loop_done)
  next
    case True
    obtain out loc1 tr1 where body: "fiddle_body w argc argv i loc tr = (out, loc1, tr1)"
      by (metis prod_cases3)
    from fiddle_body_appends [OF body] obtain e1 where
      e1: "tr1 = tr @ GET_CPU_INFO_request # e1" "\<forall>r. out = Return r \<longrightarrow> list_ex is_stderr e1"
      by blast
    show ?thesis
    proof (cases out)
      case (Return r0)
      with "1.prems" True body e1 show ?thesis
        by (auto simp: fiddle_loop_return)
    next
      case (EndOfBody i')
      have rest: "fiddle_loop w argc argv (i' + 1) loc1 tr1 = (r, loc', tr')"
        using "1.prems" True body EndOfBody by (simp add: fiddle_loop_next)
      have "\<exists>evs. tr' = tr1 @ evs \<and> (r \<noteq> 0 \<longrightarrow> list_ex is_stderr evs)"
        using "1.IH" [OF True _ EndOfBody _ rest, of "(loc1, tr1)"] body EndOfBody
        by simp
      then obtain e2 where "tr' = tr1 @ e2" "r \<noteq> 0 \<longrightarrow> list_ex is_stderr e2"
        by blast
      with e1 have "tr' = tr @ (GET_CPU_INFO_request # e1 @ e2)"
        "r \<noteq> 0 \<longrightarrow> list_ex is_stderr (GET_CPU_INFO_request # e1 @ e2)"
        by auto
      then show ?thesis by blast
    qed
  qed
qed

lemma fiddle_loop_starts_with_probe:
  assumes "i < argc"
  shows "prefix (tr @ [GET_CPU_INFO_request]) (snd (snd (fiddle_loop w argc argv i loc tr)))"
proof -
  obtain out loc1 tr1 where body: "fiddle_body w argc argv i loc tr = (out, loc1, tr1)"
    by (metis prod_cases3)
  from fiddle_body_appends [OF body] obtain e1 where
    e1: "tr1 = tr @ GET_CPU_INFO_request # e1" by blast
  show ?thesis
  proof (cases out)
    case (Return r0)
    with assms body e1 show ?thesis
      by (simp add: fiddle_loop_return prefix_def)
  next
    case (EndOfBody i')
    obtain r loc' tr' where rest: "fiddle_loop w argc argv (i' + 1) loc1 tr1 = (r, loc', tr')"
      by (metis prod_cases3)
    from fiddle_loop_appends [OF rest] obtain e2 where "tr' = tr1 @ e2" by blast
    with assms body e1 EndOfBody rest show ?thesis
      by (simp add: fiddle_loop_next prefix_def)
  qed
qed

lemma fiddle_exec_eq:
  "fiddle_exec w i loc tr =
     (if fst (usb_control_msg_ret w (tr @ [Printf Executing, EXECUTE_request])) <s 0
      then (Return (fst (usb_control_msg_ret w (tr @ [Printf Executing, EXECUTE_request]))), loc,
            tr @ [Printf Executing, EXECUTE_request, Stderr ErrExecute])
      else (EndOfBody i, loc, tr @ [Printf Executing, EXECUTE_request]))"
  by (simp add: fiddle_exec_def cc1800_req_execute_eq Let_def)

lemma memcmp_differs: "take n a \<noteq> take n b \<Longrightarrow> memcmp a b n \<noteq> 0"
  by (simp add: memcmp_def)

subsection \<open>A pass whose operations succeed reaches the end of the body\<close>

lemma write_succeeds_end:
  assumes "write_succeeds w argc argv i loc tr"
  shows "\<exists>loc' tr'. fiddle_write w argc argv i loc tr = (EndOfBody (i + 2), loc', tr')"
  using assms
  by (auto simp: write_succeeds_def fiddle_write_def Let_def split: prod.splits option.splits)

lemma read_succeeds_end:
  assumes "read_succeeds w argc argv i loc tr"
  shows "\<exists>loc' tr'. fiddle_read w argc argv i loc tr = (EndOfBody (i + 3), loc', tr')"
  using assms
  by (auto simp: read_succeeds_def fiddle_read_def Let_def split: prod.splits option.splits)

lemma exec_succeeds_end:
  assumes "exec_succeeds w tr"
  shows "\<exists>loc' tr'. fiddle_exec w i loc tr = (EndOfBody i, loc', tr')"
  using assms
  by (auto simp: exec_succeeds_def fiddle_exec_def Let_def split: prod.splits)

lemma body_succeeds_dispatch:
  "body_succeeds w argc argv i loc tr =
     (\<not> fst (usb_control_msg_ret w (tr @ [GET_CPU_INFO_request])) <s 0 \<and>
      (let s = store_bytes (take 8 (snd (usb_control_msg_ret w (tr @ [GET_CPU_INFO_request]))))
                 (replicate 256 0);
           shown = (if cpu loc then [] else [Printf (CpuInfo (takeWhile (\<lambda>b. b \<noteq> 0) s))]);
           loc1 = (if cpu loc then loc else loc\<lparr>cpu := True\<rparr>);
           tr1 = tr @ GET_CPU_INFO_request # shown
       in if argv ! i = ''write'' then write_succeeds w argc argv i loc1 tr1
          else if argv ! i = ''read'' then read_succeeds w argc argv i loc1 tr1
          else if argv ! i = ''exec'' then exec_succeeds w tr1
          else False))"
  by (simp add: body_succeeds_def cc1800_req_get_cpu_info_eq Let_def)

lemma body_succeeds_end:
  assumes "body_succeeds w argc argv i loc tr"
  shows "\<exists>i' loc' tr'. fiddle_body w argc argv i loc tr = (EndOfBody i', loc', tr')"
proof -
  define s where "s = store_bytes (take 8 (snd (usb_control_msg_ret w (tr @ [GET_CPU_INFO_request]))))
                (replicate 256 0)"
  define shown where "shown = (if cpu loc then [] else [Printf (CpuInfo (takeWhile (\<lambda>b. b \<noteq> 0) s))])"
  define loc1 where "loc1 = (if cpu loc then loc else loc\<lparr>cpu := True\<rparr>)"
  define tr1 where "tr1 = tr @ GET_CPU_INFO_request # shown"
  from assms have ok: "\<not> fst (usb_control_msg_ret w (tr @ [GET_CPU_INFO_request])) <s 0"
    and cmd: "if argv ! i = ''write'' then write_succeeds w argc argv i loc1 tr1
       else if argv ! i = ''read'' then read_succeeds w argc argv i loc1 tr1
       else if argv ! i = ''exec'' then exec_succeeds w tr1
       else False"
    unfolding body_succeeds_dispatch Let_def s_def shown_def loc1_def tr1_def by blast+
  have body: "fiddle_body w argc argv i loc tr =
      (if argv ! i = ''write'' then fiddle_write w argc argv i loc1 tr1
       else if argv ! i = ''read'' then fiddle_read w argc argv i loc1 tr1
       else if argv ! i = ''exec'' then fiddle_exec w i loc1 tr1
       else (Return (- 1), loc1, tr1 @ [Stderr (ErrUnknown (argv ! i))]))"
    unfolding fiddle_body_dispatch [OF ok] Let_def s_def shown_def loc1_def tr1_def ..
  show ?thesis
    unfolding body
    using cmd write_succeeds_end [of w argc argv i loc1 tr1]
      read_succeeds_end [of w argc argv i loc1 tr1] exec_succeeds_end [of w tr1 i loc1]
    by (auto split: if_splits)
qed

lemma cc1800_fiddle_fst:
  "fst (cc1800_fiddle w argc argv stack tr)
     = fst (fiddle_loop w argc argv 1 (stack\<lparr>cpu := False\<rparr>) tr)"
  by (simp add: cc1800_fiddle_def split: prod.splits)

lemma run_succeeds_returns_zero:
  "run_succeeds w argc argv i loc tr \<Longrightarrow> fst (fiddle_loop w argc argv i loc tr) = 0"
proof (induction w argc argv i loc tr rule: fiddle_loop.induct)
  case (1 w argc argv i loc tr)
  show ?case
  proof (cases "i < argc")
    case False
    then show ?thesis by (simp add: fiddle_loop_done)
  next
    case True
    from "1.prems" True have b: "body_succeeds w argc argv i loc tr"
      by (subst (asm) run_succeeds.simps) simp
    from body_succeeds_end [OF b] obtain i' loc' tr' where
      body: "fiddle_body w argc argv i loc tr = (EndOfBody i', loc', tr')" by blast
    from "1.prems" True body have rest: "run_succeeds w argc argv (i' + 1) loc' tr'"
      by (subst (asm) run_succeeds.simps) simp
    have "fst (fiddle_loop w argc argv (i' + 1) loc' tr') = 0"
      using "1.IH" [OF True _ _ _ rest, of "EndOfBody i'" "(loc', tr')"] body
      by simp
    then show ?thesis
      by (simp add: fiddle_loop_next [OF True body])
  qed
qed

section \<open>The encoding of addresses and lengths\<close>

text \<open>
  C6. For every 32-bit address (a value below \<open>2 ^ 32\<close> in an \<^verbatim>\<open>unsigned long\<close> of at
  least 32 bits), \<^verbatim>\<open>cc1800_req_set_address\<close> sends one SET_ADDRESS request whose value
  field is \<open>(addr >> 16) & 0xFFFF\<close> and whose index field is \<open>addr & 0xFFFF\<close>, and
  \<open>high * 65536 + low\<close> of the two fields is the address again.
\<close>

theorem set_address_fields_recombine:
  fixes addr :: "'l::len word"
  assumes "32 \<le> LENGTH('l)" and "uint addr < 2 ^ 32"
  shows "(let high = ucast (drop_bit 16 addr AND 0xFFFF);
              low = ucast (addr AND 0xFFFF)
          in snd (cc1800_req_set_address w addr tr) =
               tr @ [ControlMsg (USB_ENDPOINT_OUT OR USB_TYPE_VENDOR) CC1800_REQ_SET_ADDRESS
                       high low 0 TIMEOUT]
             \<and> recombine high low = uint addr)"
proof -
  have "recombine (ucast (drop_bit 16 addr AND 0xFFFF)) (ucast (addr AND 0xFFFF)) = uint addr"
    using recombine_fields [OF assms(1), of addr] small_word_take_bit [OF assms(2)]
    by (simp only:)
  then show ?thesis
    unfolding cc1800_req_set_address_eq Let_def by simp
qed

text \<open>The address \<open>0x12345678\<close> in a 64-bit \<^verbatim>\<open>unsigned long\<close>.\<close>

theorem set_address_fields_recombine_witness:
  "32 \<le> LENGTH(64) \<and> uint (0x12345678 :: 64 word) < 2 ^ 32
   \<and> snd (cc1800_req_set_address (bench_world ctl_ok 0 (0, []) []) (0x12345678 :: 64 word) [])
       = [ControlMsg 0x40 0x01 0x1234 0x5678 0 5000]
   \<and> recombine 0x1234 0x5678 = 0x12345678"
proof -
  have h1: "32 \<le> LENGTH(64)" by simp
  have h2: "uint (0x12345678 :: 64 word) < 2 ^ 32" by simp
  have f: "(ucast (drop_bit 16 (0x12345678 :: 64 word) AND 0xFFFF) :: cint) = 0x1234"
    "(ucast ((0x12345678 :: 64 word) AND 0xFFFF) :: cint) = 0x5678"
    "USB_ENDPOINT_OUT OR USB_TYPE_VENDOR = 0x40"
    by code_simp+
  show ?thesis
    using set_address_fields_recombine [OF h1 h2, of "bench_world ctl_ok 0 (0, []) []" "[]"]
    unfolding Let_def f CC1800_REQ_SET_ADDRESS_def TIMEOUT_def
    by simp
qed

text \<open>
  C5. For every 32-bit length and either direction, \<^verbatim>\<open>cc1800_req_set_length\<close> sends one
  SET_LENGTH request that carries, split into the high and low 16-bit fields, the length
  with bit 31 set when \<open>wr\<close> holds and cleared when it does not. The receiver's reading of
  the two fields therefore has the direction flag \<open>wr\<close> and the magnitude
  \<open>len & 0x7FFFFFFF\<close>, whatever bit 31 of \<open>len\<close> was.
\<close>

theorem set_length_direction_and_magnitude:
  fixes len :: "'l::len word"
  assumes "32 \<le> LENGTH('l)" and "uint len < 2 ^ 32"
  shows "(let sent = (if wr then len OR 0x80000000 else len AND 0x7FFFFFFF);
              high = ucast (drop_bit 16 sent AND 0xFFFF);
              low = ucast (sent AND 0xFFFF)
          in snd (cc1800_req_set_length w len wr tr) =
               tr @ [ControlMsg (USB_ENDPOINT_OUT OR USB_TYPE_VENDOR) CC1800_REQ_SET_LENGTH
                       high low 0 TIMEOUT]
             \<and> recombine high low = uint sent
             \<and> bit sent 31 = wr
             \<and> decoded_is_write high low = wr
             \<and> decoded_magnitude high low = uint (len AND 0x7FFFFFFF))"
proof (cases wr)
  case True
  show ?thesis
    unfolding cc1800_req_set_length_eq Let_def ucast_not_hex80_7F
    using True sent_write [OF assms] by (simp only: if_True snd_conv simp_thms)
next
  case False
  show ?thesis
    unfolding cc1800_req_set_length_eq Let_def ucast_not_hex80_7F
    using False sent_read [OF assms(1), of len] by (simp only: if_False snd_conv simp_thms)
qed

text \<open>The length 16 with bit 31 already set, sent in both directions.\<close>

theorem set_length_direction_and_magnitude_witness:
  "32 \<le> LENGTH(32) \<and> uint (0x80000010 :: 32 word) < 2 ^ 32
   \<and> snd (cc1800_req_set_length (bench_world ctl_ok 0 (0, []) []) (0x80000010 :: 32 word) True [])
       = [ControlMsg 0x40 0x02 0x8000 0x0010 0 5000]
   \<and> snd (cc1800_req_set_length (bench_world ctl_ok 0 (0, []) []) (0x80000010 :: 32 word) False [])
       = [ControlMsg 0x40 0x02 0x0000 0x0010 0 5000]
   \<and> decoded_is_write 0x8000 0x0010 \<and> \<not> decoded_is_write 0x0000 0x0010
   \<and> decoded_magnitude 0x8000 0x0010 = 0x10 \<and> decoded_magnitude 0x0000 0x0010 = 0x10"
proof -
  have h1: "32 \<le> LENGTH(32)" by simp
  have h2: "uint (0x80000010 :: 32 word) < 2 ^ 32" by simp
  have f: "(ucast (drop_bit 16 ((0x80000010 :: 32 word) OR 0x80000000) AND 0xFFFF) :: cint) = 0x8000"
    "(ucast (((0x80000010 :: 32 word) OR 0x80000000) AND 0xFFFF) :: cint) = 0x10"
    "(ucast (drop_bit 16 ((0x80000010 :: 32 word) AND 0x7FFFFFFF) AND 0xFFFF) :: cint) = 0"
    "(ucast (((0x80000010 :: 32 word) AND 0x7FFFFFFF) AND 0xFFFF) :: cint) = 0x10"
    "USB_ENDPOINT_OUT OR USB_TYPE_VENDOR = 0x40"
    "uint ((0x80000010 :: 32 word) AND 0x7FFFFFFF) = 0x10"
    by code_simp+
  show ?thesis
    using set_length_direction_and_magnitude
        [OF h1 h2, of True "bench_world ctl_ok 0 (0, []) []" "[]"]
      set_length_direction_and_magnitude
        [OF h1 h2, of False "bench_world ctl_ok 0 (0, []) []" "[]"]
    unfolding Let_def if_True if_False f CC1800_REQ_SET_LENGTH_def TIMEOUT_def
    by simp
qed

section \<open>The composite operations\<close>

text \<open>
  C1, as the claim states it, fails: \<^verbatim>\<open>cc1800_upload\<close> and \<^verbatim>\<open>cc1800_download\<close> do not
  turn a short transfer into an error. Here the bulk transfer moves 3 of the 4 bytes asked
  for, and both functions return 3, which is not negative.
\<close>

theorem upload_short_transfer_counterexample:
  "cc1800_upload (bench_world ctl_ok 3 (3, [1, 2, 3]) []) [1, 2, 3, 4] 4 (0x1000 :: 32 word) []
     = (3, [ControlMsg 0x40 1 0 0x1000 0 5000, ControlMsg 0x40 2 0x8000 4 0 5000,
            BulkWrite 1 [1, 2, 3, 4] 4 5000])
   \<and> cc1800_download (bench_world ctl_ok 3 (3, [1, 2, 3]) []) [0, 0, 0, 0] 4 (0x1000 :: 32 word) []
     = (3, [1, 2, 3, 0],
        [ControlMsg 0x40 1 0 0x1000 0 5000, ControlMsg 0x40 2 0 4 0 5000, BulkRead 1 4 5000])
   \<and> (3 :: cint) <s 4 \<and> \<not> (3 :: cint) <s 0"
  by code_simp

text \<open>
  C1, amended. Whenever the two control requests succeed, \<^verbatim>\<open>cc1800_upload\<close> and
  \<^verbatim>\<open>cc1800_download\<close> return what the bulk transfer returned, unchanged: the number of
  bytes moved, also when it is less than the length asked for. Comparing that count with
  the length is left to the caller.
\<close>

theorem upload_download_return_transfer_result:
  fixes address :: "'l::len word"
  assumes "cc1800_req_set_address w address tr = (r1, tr1)" and "\<not> r1 <s 0"
    and "cc1800_req_set_length w (scast length' :: 'l word) True tr1 = (r2, tr2)" and "\<not> r2 <s 0"
    and "cc1800_req_set_length w (scast length' :: 'l word) False tr1 = (r3, tr3)" and "\<not> r3 <s 0"
  shows "cc1800_upload w data length' address tr =
           (usb_bulk_write_ret w (tr2 @ [BulkWrite 1 data length' TIMEOUT]),
            tr2 @ [BulkWrite 1 data length' TIMEOUT])
       \<and> fst (cc1800_download w buf length' address tr) =
           fst (usb_bulk_read_ret w (tr3 @ [BulkRead 1 length' TIMEOUT]))
       \<and> snd (snd (cc1800_download w buf length' address tr)) =
           tr3 @ [BulkRead 1 length' TIMEOUT]"
proof -
  have up: "cc1800_upload w data length' address tr =
      (usb_bulk_write_ret w (tr2 @ [BulkWrite 1 data length' TIMEOUT]),
       tr2 @ [BulkWrite 1 data length' TIMEOUT])"
    by (simp add: cc1800_upload_def assms usb_bulk_write_eq)
  have down: "cc1800_download w buf length' address tr =
      usb_bulk_read w 1 buf length' TIMEOUT tr3"
    by (simp add: cc1800_download_def assms)
  show ?thesis
    unfolding up down
    by (simp add: usb_bulk_read_def Let_def split: prod.splits)
qed

text \<open>Both functions at a transfer of 3 bytes out of 4.\<close>

theorem upload_download_return_transfer_result_witness:
  "\<not> (0 :: cint) <s 0
   \<and> cc1800_upload (bench_world ctl_ok 3 (3, [1, 2, 3]) []) [1, 2, 3, 4] 4 (0x1000 :: 32 word) []
     = (3, [ControlMsg 0x40 1 0 0x1000 0 5000, ControlMsg 0x40 2 0x8000 4 0 5000,
            BulkWrite 1 [1, 2, 3, 4] 4 5000])
   \<and> fst (cc1800_download (bench_world ctl_ok 3 (3, [1, 2, 3]) []) [0, 0, 0, 0] 4
        (0x1000 :: 32 word) []) = 3"
proof -
  have a: "cc1800_req_set_address (bench_world ctl_ok 3 (3, [1, 2, 3]) []) (0x1000 :: 32 word) []
      = (0, [ControlMsg 0x40 1 0 0x1000 0 5000])"
    by code_simp
  have l: "cc1800_req_set_length (bench_world ctl_ok 3 (3, [1, 2, 3]) []) (scast (4 :: cint) :: 32 word)
        True [ControlMsg 0x40 1 0 0x1000 0 5000]
      = (0, [ControlMsg 0x40 1 0 0x1000 0 5000, ControlMsg 0x40 2 0x8000 4 0 5000])"
    by code_simp
  have l': "cc1800_req_set_length (bench_world ctl_ok 3 (3, [1, 2, 3]) []) (scast (4 :: cint) :: 32 word)
        False [ControlMsg 0x40 1 0 0x1000 0 5000]
      = (0, [ControlMsg 0x40 1 0 0x1000 0 5000, ControlMsg 0x40 2 0 4 0 5000])"
    by code_simp
  have z: "\<not> (0 :: cint) <s 0"
    by (simp add: word_sless_alt)
  have v: "usb_bulk_write_ret (bench_world ctl_ok 3 (3, [1, 2, 3]) []) = (\<lambda>_. 3)"
    "usb_bulk_read_ret (bench_world ctl_ok 3 (3, [1, 2, 3]) []) = (\<lambda>_. (3, [1, 2, 3]))"
    by (simp_all add: bench_world_def)
  show ?thesis
    using upload_download_return_transfer_result [OF a z l z l' z, of "[1, 2, 3, 4]" "[0, 0, 0, 0]"] z
    by (simp add: v TIMEOUT_def)
qed

text \<open>
  C2. \<^verbatim>\<open>cc1800_execute\<close> sends the EXECUTE request exactly when the upload moved at
  least \<^verbatim>\<open>length\<close> bytes, the download for verification did too, and the first
  \<^verbatim>\<open>length\<close> bytes of the two buffers are equal (\<open>verified\<close>; without the scratch buffer
  of \<^verbatim>\<open>alloca\<close> the upload is not even started). In every other case it returns a
  negative error code and the trace it leaves holds no EXECUTE request.
\<close>

theorem execute_iff_uploaded_and_verified:
  fixes address :: "'l::len word"
  shows "(let n = unat (scast length' :: 'l word);
              (r, tr') = cc1800_execute w data length' address tr;
              verified =
                (case alloca_ret w tr n of
                   None \<Rightarrow> False
                 | Some check \<Rightarrow>
                     let (r1, tr1) = cc1800_upload w data length' address tr;
                         (r2, check, tr2) = cc1800_download w check length' address tr1
                     in \<not> r1 <s 0 \<and> \<not> r1 <s length' \<and> \<not> r2 <s 0 \<and> \<not> r2 <s length'
                        \<and> take n data = take n check)
          in list_ex is_execute (since tr tr') = verified
             \<and> (\<not> verified \<longrightarrow> r <s 0 \<and> \<not> list_ex is_execute (since tr tr')))"
proof (cases "alloca_ret w tr (unat (scast length' :: 'l word))")
  case None
  then show ?thesis
    by (simp add: cc1800_execute_def Let_def neg_errno)
next
  case (Some check)
  obtain r1 tr1 where up: "cc1800_upload w data length' address tr = (r1, tr1)"
    by (cases "cc1800_upload w data length' address tr")
  obtain r2 check' tr2 where down: "cc1800_download w check length' address tr1 = (r2, check', tr2)"
    by (cases "cc1800_download w check length' address tr1")
  obtain evs1 where evs1: "tr1 = tr @ evs1" "\<not> list_ex is_execute evs1"
    using upload_new [of w data length' address tr] up by auto
  obtain evs2 where evs2: "tr2 = tr1 @ evs2" "\<not> list_ex is_execute evs2"
    using download_new [of w check length' address tr1] down by auto
  have ex: "is_execute EXECUTE_request"
    by (simp add: EXECUTE_request_def)
  show ?thesis
    using Some up down evs1 evs2 ex
    by (auto simp: cc1800_execute_def Let_def neg_errno memcmp_zero cc1800_req_execute_eq)
qed


text \<open>A run that verifies and executes, and a run whose last byte reads back wrong.\<close>

theorem execute_iff_uploaded_and_verified_witness:
  "cc1800_execute (bench_world ctl_ok 4 (4, [1, 2, 3, 4]) []) [1, 2, 3, 4] 4 (0x1000 :: 32 word) []
     = (0, [ControlMsg 0x40 1 0 0x1000 0 5000, ControlMsg 0x40 2 0x8000 4 0 5000,
            BulkWrite 1 [1, 2, 3, 4] 4 5000,
            ControlMsg 0x40 1 0 0x1000 0 5000, ControlMsg 0x40 2 0 4 0 5000,
            BulkRead 1 4 5000, EXECUTE_request])
   \<and> fst (cc1800_execute (bench_world ctl_ok 4 (4, [1, 2, 3, 5]) []) [1, 2, 3, 4] 4
            (0x1000 :: 32 word) []) <s 0
   \<and> \<not> list_ex is_execute
         (since [] (snd (cc1800_execute (bench_world ctl_ok 4 (4, [1, 2, 3, 5]) []) [1, 2, 3, 4] 4
            (0x1000 :: 32 word) [])))"
proof -
  have run: "cc1800_execute (bench_world ctl_ok 4 (4, [1, 2, 3, 4]) []) [1, 2, 3, 4] 4
        (0x1000 :: 32 word) []
     = (0, [ControlMsg 0x40 1 0 0x1000 0 5000, ControlMsg 0x40 2 0x8000 4 0 5000,
            BulkWrite 1 [1, 2, 3, 4] 4 5000,
            ControlMsg 0x40 1 0 0x1000 0 5000, ControlMsg 0x40 2 0 4 0 5000,
            BulkRead 1 4 5000, EXECUTE_request])"
    by code_simp
  have alloc: "alloca_ret (bench_world ctl_ok 4 (4, [1, 2, 3, 5]) []) [] 4 = Some [0, 0, 0, 0]"
    by code_simp
  have up: "cc1800_upload (bench_world ctl_ok 4 (4, [1, 2, 3, 5]) []) [1, 2, 3, 4] 4
        (0x1000 :: 32 word) []
      = (4, [ControlMsg 0x40 1 0 0x1000 0 5000, ControlMsg 0x40 2 0x8000 4 0 5000,
            BulkWrite 1 [1, 2, 3, 4] 4 5000])"
    by code_simp
  have down: "cc1800_download (bench_world ctl_ok 4 (4, [1, 2, 3, 5]) []) [0, 0, 0, 0] 4
        (0x1000 :: 32 word)
        [ControlMsg 0x40 1 0 0x1000 0 5000, ControlMsg 0x40 2 0x8000 4 0 5000,
            BulkWrite 1 [1, 2, 3, 4] 4 5000]
      = (4, [1, 2, 3, 5],
         [ControlMsg 0x40 1 0 0x1000 0 5000, ControlMsg 0x40 2 0x8000 4 0 5000,
            BulkWrite 1 [1, 2, 3, 4] 4 5000,
            ControlMsg 0x40 1 0 0x1000 0 5000, ControlMsg 0x40 2 0 4 0 5000,
            BulkRead 1 4 5000])"
    by code_simp
  have n: "unat (scast (4 :: cint) :: 32 word) = 4"
    by code_simp
  show ?thesis
    using execute_iff_uploaded_and_verified
      [where length' = 4 and w = "bench_world ctl_ok 4 (4, [1, 2, 3, 5]) []" and tr = "[]"
         and data = "[1, 2, 3, 4]" and address = "0x1000 :: 32 word"]
      run
    by (simp add: Let_def alloc up down n split: prod.splits)
qed

section \<open>The command line interpreter\<close>

text \<open>
  C3. At every position \<open>i\<close> of the argument vector the loop reaches, whatever command
  stands there, the first thing the interpreter does is send the GET_CPU_INFO request. If
  that request fails, the interpreter returns its error code at once: the trace ends with
  the request and the error message, so neither the command at \<open>i\<close> nor any later one is
  attempted.
\<close>

theorem probe_before_every_command:
  assumes "i < argc"
  shows "prefix (tr @ [GET_CPU_INFO_request]) (snd (snd (fiddle_loop w argc argv i loc tr)))
       \<and> (fst (usb_control_msg_ret w (tr @ [GET_CPU_INFO_request])) <s 0 \<longrightarrow>
            fiddle_loop w argc argv i loc tr =
              (fst (usb_control_msg_ret w (tr @ [GET_CPU_INFO_request])), loc,
               tr @ [GET_CPU_INFO_request, Stderr ErrCpuInfo]))"
  using assms fiddle_loop_starts_with_probe [OF assms]
  by (auto simp: fiddle_loop_return fiddle_body_probe_fails)

text \<open>
  Two \<^verbatim>\<open>exec\<close> commands and a device that stops answering after the first: the second
  probe fails and the second \<^verbatim>\<open>exec\<close> is never sent.
\<close>

theorem probe_before_every_command_witness:
  "(2 :: nat) < 3
   \<and> fst (usb_control_msg_ret (bench_world (ctl_until 4) 0 (0, []) [])
        ([GET_CPU_INFO_request, Printf (CpuInfo []), Printf Executing, EXECUTE_request]
          @ [GET_CPU_INFO_request])) <s 0
   \<and> fiddle_loop (bench_world (ctl_until 4) 0 (0, []) []) 3 [''usbtool'', ''exec'', ''exec''] 2
        (stack0\<lparr>cpu := True\<rparr>)
        [GET_CPU_INFO_request, Printf (CpuInfo []), Printf Executing, EXECUTE_request]
      = (- 5, stack0\<lparr>cpu := True\<rparr>,
         [GET_CPU_INFO_request, Printf (CpuInfo []), Printf Executing, EXECUTE_request,
          GET_CPU_INFO_request, Stderr ErrCpuInfo])
   \<and> cc1800_fiddle (bench_world (ctl_until 4) 0 (0, []) []) 3 [''usbtool'', ''exec'', ''exec'']
        stack0 []
      = (- 5, [GET_CPU_INFO_request, Printf (CpuInfo []), Printf Executing, EXECUTE_request,
               GET_CPU_INFO_request, Stderr ErrCpuInfo])"
proof -
  have lt: "(2 :: nat) < 3" by simp
  have ret: "usb_control_msg_ret (bench_world (ctl_until 4) 0 (0, []) [])
        [GET_CPU_INFO_request, Printf (CpuInfo []), Printf Executing, EXECUTE_request,
         GET_CPU_INFO_request] = (- 5, [])"
    by code_simp
  have neg: "(- 5 :: cint) <s 0"
    by (simp add: word_sless_alt)
  have run: "cc1800_fiddle (bench_world (ctl_until 4) 0 (0, []) []) 3 [''usbtool'', ''exec'', ''exec'']
        stack0 []
      = (- 5, [GET_CPU_INFO_request, Printf (CpuInfo []), Printf Executing, EXECUTE_request,
               GET_CPU_INFO_request, Stderr ErrCpuInfo])"
    by code_simp
  show ?thesis
    using probe_before_every_command [OF lt,
        of "[GET_CPU_INFO_request, Printf (CpuInfo []), Printf Executing, EXECUTE_request]"
           "bench_world (ctl_until 4) 0 (0, []) []" "[''usbtool'', ''exec'', ''exec'']"
           "stack0\<lparr>cpu := True\<rparr>"]
      run
    by (simp add: ret neg)
qed


text \<open>
  C8, as the claim states it, fails: the interpreter reaches the test of the command name
  only after the probe of that entry, so an unknown name is refused after one device
  interaction, the GET_CPU_INFO request.
\<close>

theorem unknown_command_counterexample:
  "cc1800_fiddle (bench_world ctl_ok 0 (0, []) []) 2 [''usbtool'', ''foo''] stack0 []
     = (- 1, [ControlMsg 0xC0 0 0 0 8 5000, Printf (CpuInfo []), Stderr (ErrUnknown ''foo'')])
   \<and> is_usb (ControlMsg 0xC0 0 0 0 8 5000)"
  by code_simp

text \<open>
  C8, amended. At an entry whose name is not \<^verbatim>\<open>write\<close>, \<^verbatim>\<open>read\<close> or \<^verbatim>\<open>exec\<close>, once the
  liveness probe of that entry has succeeded, the interpreter returns -1 with the message
  for an unknown command; the probe is the only USB transfer it makes for that entry.
\<close>

theorem unknown_command_aborts_after_probe:
  assumes "i < argc"
    and "argv ! i \<noteq> ''write''" and "argv ! i \<noteq> ''read''" and "argv ! i \<noteq> ''exec''"
    and "\<not> fst (usb_control_msg_ret w (tr @ [GET_CPU_INFO_request])) <s 0"
  shows "fst (fiddle_loop w argc argv i loc tr) = - 1
       \<and> filter is_usb (since tr (snd (snd (fiddle_loop w argc argv i loc tr))))
           = [GET_CPU_INFO_request]
       \<and> last (snd (snd (fiddle_loop w argc argv i loc tr))) = Stderr (ErrUnknown (argv ! i))"
proof -
  define s where "s = store_bytes (take 8 (snd (usb_control_msg_ret w (tr @ [GET_CPU_INFO_request]))))
                (replicate 256 0)"
  define shown where "shown = (if cpu loc then [] else [Printf (CpuInfo (takeWhile (\<lambda>b. b \<noteq> 0) s))])"
  define loc1 where "loc1 = (if cpu loc then loc else loc\<lparr>cpu := True\<rparr>)"
  have body: "fiddle_body w argc argv i loc tr =
      (Return (- 1), loc1, tr @ GET_CPU_INFO_request # shown @ [Stderr (ErrUnknown (argv ! i))])"
    unfolding fiddle_body_dispatch [OF assms(5)] Let_def s_def shown_def loc1_def
    using assms(2-4) by simp
  have usb: "is_usb GET_CPU_INFO_request"
    by (simp add: GET_CPU_INFO_request_def)
  show ?thesis
    unfolding fiddle_loop_return [OF assms(1) body]
    by (simp add: usb shown_def)
qed

text \<open>The command line \<^verbatim>\<open>usbtool foo\<close>.\<close>

theorem unknown_command_aborts_after_probe_witness:
  "(1 :: nat) < 2 \<and> [''usbtool'', ''foo''] ! 1 \<noteq> ''write'' \<and> [''usbtool'', ''foo''] ! 1 \<noteq> ''read''
   \<and> [''usbtool'', ''foo''] ! 1 \<noteq> ''exec''
   \<and> \<not> fst (usb_control_msg_ret (bench_world ctl_ok 0 (0, []) []) ([] @ [GET_CPU_INFO_request])) <s 0
   \<and> fst (fiddle_loop (bench_world ctl_ok 0 (0, []) []) 2 [''usbtool'', ''foo''] 1 stack0 []) = - 1
   \<and> filter is_usb (since [] (snd (snd
        (fiddle_loop (bench_world ctl_ok 0 (0, []) []) 2 [''usbtool'', ''foo''] 1 stack0 []))))
       = [GET_CPU_INFO_request]
   \<and> last (snd (snd (fiddle_loop (bench_world ctl_ok 0 (0, []) []) 2 [''usbtool'', ''foo''] 1 stack0 [])))
       = Stderr (ErrUnknown ''foo'')"
proof -
  have h1: "(1 :: nat) < 2" by simp
  have h2: "[''usbtool'', ''foo''] ! 1 \<noteq> ''write''" "[''usbtool'', ''foo''] ! 1 \<noteq> ''read''"
    "[''usbtool'', ''foo''] ! 1 \<noteq> ''exec''" by simp_all
  have h3: "\<not> fst (usb_control_msg_ret (bench_world ctl_ok 0 (0, []) []) ([] @ [GET_CPU_INFO_request])) <s 0"
    by code_simp
  show ?thesis
    using unknown_command_aborts_after_probe [OF h1 h2 h3, of stack0] h1 h2 h3
    by simp
qed

text \<open>
  C9. At an \<^verbatim>\<open>exec\<close> command whose probe succeeded the interpreter sends the EXECUTE
  request, whatever the trace before it holds: nothing is asked of the earlier commands,
  and the request carries no address (its value and index fields are 0). So an
  \<^verbatim>\<open>exec\<close> that comes first, after no SET_ADDRESS at all, is sent all the same.
\<close>

theorem exec_sends_execute_whatever_came_before:
  assumes "i < argc" and "argv ! i = ''exec''"
    and "\<not> fst (usb_control_msg_ret w (tr @ [GET_CPU_INFO_request])) <s 0"
  shows "(let s = store_bytes (take 8 (snd (usb_control_msg_ret w (tr @ [GET_CPU_INFO_request]))))
                   (replicate 256 0);
              shown = (if cpu loc then [] else [Printf (CpuInfo (takeWhile (\<lambda>b. b \<noteq> 0) s))])
          in prefix (tr @ GET_CPU_INFO_request # shown @ [Printf Executing, EXECUTE_request])
               (snd (snd (fiddle_loop w argc argv i loc tr))))"
proof -
  define s where "s = store_bytes (take 8 (snd (usb_control_msg_ret w (tr @ [GET_CPU_INFO_request]))))
                (replicate 256 0)"
  define shown where "shown = (if cpu loc then [] else [Printf (CpuInfo (takeWhile (\<lambda>b. b \<noteq> 0) s))])"
  define loc1 where "loc1 = (if cpu loc then loc else loc\<lparr>cpu := True\<rparr>)"
  define tr1 where "tr1 = tr @ GET_CPU_INFO_request # shown"
  define tr2 where "tr2 = tr1 @ [Printf Executing, EXECUTE_request]"
  have body: "fiddle_body w argc argv i loc tr = fiddle_exec w i loc1 tr1"
    unfolding fiddle_body_dispatch [OF assms(3)] Let_def s_def shown_def loc1_def tr1_def
    using assms(2) by simp
  have "prefix tr2 (snd (snd (fiddle_loop w argc argv i loc tr)))"
  proof (cases "fst (usb_control_msg_ret w tr2) <s 0")
    case True
    then have "fiddle_body w argc argv i loc tr =
        (Return (fst (usb_control_msg_ret w tr2)), loc1, tr2 @ [Stderr ErrExecute])"
      unfolding body fiddle_exec_eq tr2_def by simp
    from fiddle_loop_return [OF assms(1) this] show ?thesis
      by simp
  next
    case False
    then have next_body: "fiddle_body w argc argv i loc tr = (EndOfBody i, loc1, tr2)"
      unfolding body fiddle_exec_eq tr2_def by simp
    obtain r loc' tr' where rest: "fiddle_loop w argc argv (i + 1) loc1 tr2 = (r, loc', tr')"
      by (metis prod_cases3)
    from fiddle_loop_appends [OF rest] obtain evs where "tr' = tr2 @ evs"
      by blast
    with fiddle_loop_next [OF assms(1) next_body] rest show ?thesis
      by simp
  qed
  then show ?thesis
    unfolding Let_def tr2_def tr1_def shown_def s_def by simp
qed

text \<open>The command line \<^verbatim>\<open>usbtool exec\<close>: EXECUTE is sent and no address was ever set.\<close>

theorem exec_sends_execute_whatever_came_before_witness:
  "(1 :: nat) < 2 \<and> [''usbtool'', ''exec''] ! 1 = ''exec''
   \<and> \<not> fst (usb_control_msg_ret (bench_world ctl_ok 0 (0, []) []) ([] @ [GET_CPU_INFO_request])) <s 0
   \<and> prefix [GET_CPU_INFO_request, Printf (CpuInfo []), Printf Executing, EXECUTE_request]
        (snd (snd (fiddle_loop (bench_world ctl_ok 0 (0, []) []) 2 [''usbtool'', ''exec''] 1 stack0 [])))
   \<and> cc1800_fiddle (bench_world ctl_ok 0 (0, []) []) 2 [''usbtool'', ''exec''] stack0 []
       = (0, [GET_CPU_INFO_request, Printf (CpuInfo []), Printf Executing, EXECUTE_request])"
proof -
  have h1: "(1 :: nat) < 2" by simp
  have h2: "[''usbtool'', ''exec''] ! 1 = ''exec''" by simp
  have h3: "\<not> fst (usb_control_msg_ret (bench_world ctl_ok 0 (0, []) []) ([] @ [GET_CPU_INFO_request])) <s 0"
    by code_simp
  have s: "takeWhile (\<lambda>b. b \<noteq> 0)
      (store_bytes (take 8 (snd (usb_control_msg_ret (bench_world ctl_ok 0 (0, []) [])
         ([] @ [GET_CPU_INFO_request])))) (replicate 256 0)) = []"
    by code_simp
  have c: "\<not> cpu stack0"
    by (simp add: stack0_def)
  have run: "cc1800_fiddle (bench_world ctl_ok 0 (0, []) []) 2 [''usbtool'', ''exec''] stack0 []
       = (0, [GET_CPU_INFO_request, Printf (CpuInfo []), Printf Executing, EXECUTE_request])"
    by code_simp
  show ?thesis
    using exec_sends_execute_whatever_came_before [OF h1 h2 h3, of stack0] h1 h2 h3 run
    unfolding Let_def s by (simp add: c)
qed

text \<open>
  C4. In a \<^verbatim>\<open>write\<close> command whose probe, arguments, file, upload, allocation and
  download for verification all succeed, a difference between the bytes uploaded and
  the bytes read back only prints the warning on stdout: the body of the loop reaches its
  end, nothing is returned, and the loop goes on with the command after the two
  arguments.
\<close>

theorem write_mismatch_is_only_a_warning:
  fixes loc :: "'l::len word locals"
  assumes cmd: "i < argc" "argv ! i = ''write''" "\<not> argc - i < 3"
    and probe: "cc1800_req_get_cpu_info w (replicate 256 0) tr = (r0, s, tr0)" "\<not> r0 <s 0"
    and shown: "tr1 = (if cpu loc then tr0
                       else tr0 @ [Printf (CpuInfo (takeWhile (\<lambda>b. b \<noteq> 0) s))])"
    and scan: "scan_ulong (argv ! (i + 1)) (addr loc) tr1 = (r2, a, tr2)" "\<not> r2 <s 0"
    and load: "load_file w (argv ! (i + 2)) (len loc) tr2 = (r3, data, l, tr3)" "\<not> r3 <s 0"
    and upload: "cc1800_upload w data (ucast l) a (tr3 @ [Printf (Uploading (unat a))]) = (r4, tr4)"
      "\<not> r4 <s 0"
    and alloc: "malloc_ret w tr4 (unat l) = Some verify"
    and download: "cc1800_download w verify (ucast l) a (tr4 @ [Printf DownloadingVerify])
        = (r5, readback, tr5)" "\<not> r5 <s 0"
    and mismatch: "take (unat l) data \<noteq> take (unat l) readback"
  shows "fiddle_body w argc argv i loc tr =
           (EndOfBody (i + 2), loc\<lparr>cpu := True, addr := a, len := l\<rparr>,
            tr5 @ [Printf WarnMismatch])
       \<and> fiddle_loop w argc argv i loc tr =
           fiddle_loop w argc argv (i + 3) (loc\<lparr>cpu := True, addr := a, len := l\<rparr>)
             (tr5 @ [Printf WarnMismatch])"
proof -
  define loc1 where "loc1 = (if cpu loc then loc else loc\<lparr>cpu := True\<rparr>)"
  have loc1: "loc1 = loc\<lparr>cpu := True\<rparr>" "addr loc1 = addr loc" "len loc1 = len loc"
    by (simp_all add: loc1_def)
  have body: "fiddle_body w argc argv i loc tr = fiddle_write w argc argv i loc1 tr1"
    using probe cmd(2) by (simp add: fiddle_body_def shown loc1_def)
  have wcmd: "fiddle_write w argc argv i loc1 tr1 =
      (EndOfBody (i + 2), loc1\<lparr>addr := a, len := l\<rparr>, tr5 @ [Printf WarnMismatch])"
    using cmd(3) scan load upload alloc download memcmp_differs [OF mismatch]
    by (simp add: fiddle_write_def loc1(2,3))
  have b: "fiddle_body w argc argv i loc tr =
           (EndOfBody (i + 2), loc\<lparr>cpu := True, addr := a, len := l\<rparr>,
            tr5 @ [Printf WarnMismatch])"
    using body wcmd unfolding loc1(1) by simp
  have l: "fiddle_loop w argc argv i loc tr =
      fiddle_loop w argc argv (i + 2 + 1) (loc\<lparr>cpu := True, addr := a, len := l\<rparr>)
        (tr5 @ [Printf WarnMismatch])"
    by (rule fiddle_loop_next [OF cmd(1) b])
  have e: "i + 2 + 1 = i + 3"
    by simp
  show ?thesis
    using b l unfolding e by (rule conjI)
qed


text \<open>
  The command line \<^verbatim>\<open>usbtool write 0x1000 payload.bin exec\<close> with a device that reads
  the last byte back wrong: the warning is printed and the \<^verbatim>\<open>exec\<close> is still run.
\<close>

theorem write_mismatch_is_only_a_warning_witness:
  "fiddle_body (bench_world ctl_ok 4 (4, [1, 2, 3, 9]) [1, 2, 3, 4]) 5
      [''usbtool'', ''write'', ''0x1000'', ''payload.bin'', ''exec''] 1 stack0 []
    = (EndOfBody 3, stack0\<lparr>cpu := True, addr := 0x1000, len := 4\<rparr>,
       [GET_CPU_INFO_request, Printf (CpuInfo []), Printf (LoadedFile ''payload.bin'' 4),
        Printf (Uploading 0x1000), ControlMsg 0x40 1 0 0x1000 0 5000,
        ControlMsg 0x40 2 0x8000 4 0 5000, BulkWrite 1 [1, 2, 3, 4] 4 5000,
        Printf DownloadingVerify, ControlMsg 0x40 1 0 0x1000 0 5000,
        ControlMsg 0x40 2 0 4 0 5000, BulkRead 1 4 5000, Printf WarnMismatch])
   \<and> fiddle_loop (bench_world ctl_ok 4 (4, [1, 2, 3, 9]) [1, 2, 3, 4]) 5
      [''usbtool'', ''write'', ''0x1000'', ''payload.bin'', ''exec''] 1 stack0 []
    = (0, stack0\<lparr>cpu := True, addr := 0x1000, len := 4\<rparr>,
       [GET_CPU_INFO_request, Printf (CpuInfo []), Printf (LoadedFile ''payload.bin'' 4),
        Printf (Uploading 0x1000), ControlMsg 0x40 1 0 0x1000 0 5000,
        ControlMsg 0x40 2 0x8000 4 0 5000, BulkWrite 1 [1, 2, 3, 4] 4 5000,
        Printf DownloadingVerify, ControlMsg 0x40 1 0 0x1000 0 5000,
        ControlMsg 0x40 2 0 4 0 5000, BulkRead 1 4 5000, Printf WarnMismatch,
        GET_CPU_INFO_request, Printf Executing, EXECUTE_request])"
proof -
  let ?W = "bench_world ctl_ok 4 (4, [1, 2, 3, 9]) [1, 2, 3, 4]"
  let ?argv = "[''usbtool'', ''write'', ''0x1000'', ''payload.bin'', ''exec'']"
  let ?T1 = "[GET_CPU_INFO_request, Printf (CpuInfo [])]"
  let ?T3 = "[GET_CPU_INFO_request, Printf (CpuInfo []), Printf (LoadedFile ''payload.bin'' 4)]"
  let ?T4 = "[GET_CPU_INFO_request, Printf (CpuInfo []), Printf (LoadedFile ''payload.bin'' 4),
        Printf (Uploading 0x1000), ControlMsg 0x40 1 0 0x1000 0 5000,
        ControlMsg 0x40 2 0x8000 4 0 5000, BulkWrite 1 [1, 2, 3, 4] 4 5000]"
  let ?T5 = "[GET_CPU_INFO_request, Printf (CpuInfo []), Printf (LoadedFile ''payload.bin'' 4),
        Printf (Uploading 0x1000), ControlMsg 0x40 1 0 0x1000 0 5000,
        ControlMsg 0x40 2 0x8000 4 0 5000, BulkWrite 1 [1, 2, 3, 4] 4 5000,
        Printf DownloadingVerify, ControlMsg 0x40 1 0 0x1000 0 5000,
        ControlMsg 0x40 2 0 4 0 5000, BulkRead 1 4 5000]"
  have c1: "(1 :: nat) < 5" by simp
  have c2: "?argv ! 1 = ''write''" by simp
  have c3: "\<not> (5 :: nat) - 1 < 3" by simp
  have p1: "cc1800_req_get_cpu_info ?W (replicate 256 0) []
      = (0, replicate 256 0, [GET_CPU_INFO_request])"
    by code_simp
  have ok: "\<not> (0 :: cint) <s 0" "\<not> (4 :: cint) <s 0"
    by (simp_all add: word_sless_alt)
  have sh: "?T1 = (if cpu stack0 then [GET_CPU_INFO_request]
      else [GET_CPU_INFO_request] @ [Printf (CpuInfo (takeWhile (\<lambda>b. b \<noteq> 0) (replicate 256 0)))])"
    by code_simp
  have sc: "scan_ulong (?argv ! (1 + 1)) (addr stack0) ?T1 = (0, 0x1000, ?T1)"
    by code_simp
  have ld: "load_file ?W (?argv ! (1 + 2)) (len stack0) ?T1 = (0, [1, 2, 3, 4], 4, ?T3)"
    by code_simp
  have up: "cc1800_upload ?W [1, 2, 3, 4] (ucast (4 :: 32 word)) (0x1000 :: 32 word)
      (?T3 @ [Printf (Uploading (unat (0x1000 :: 32 word)))]) = (4, ?T4)"
    by code_simp
  have al: "malloc_ret ?W ?T4 (unat (4 :: 32 word)) = Some [0, 0, 0, 0]"
    by code_simp
  have dl: "cc1800_download ?W [0, 0, 0, 0] (ucast (4 :: 32 word)) (0x1000 :: 32 word)
      (?T4 @ [Printf DownloadingVerify]) = (4, [1, 2, 3, 9], ?T5)"
    by code_simp
  have mm: "take (unat (4 :: 32 word)) [1, 2, 3, 4 :: byte] \<noteq> take (unat (4 :: 32 word)) [1, 2, 3, 9]"
    by code_simp
  have rest: "fiddle_loop ?W 5 ?argv (1 + 3) (stack0\<lparr>cpu := True, addr := 0x1000, len := 4\<rparr>)
      (?T5 @ [Printf WarnMismatch])
    = (0, stack0\<lparr>cpu := True, addr := 0x1000, len := 4\<rparr>,
       ?T5 @ [Printf WarnMismatch, GET_CPU_INFO_request, Printf Executing, EXECUTE_request])"
    by code_simp
  show ?thesis
    using write_mismatch_is_only_a_warning
      [OF c1 c2 c3 p1 ok(1) sh sc ok(1) ld ok(1) up ok(2) al dl ok(2) mm]
    unfolding rest by simp
qed

text \<open>
  C10. In every run in which every operation succeeds (each probe, each scan of a numeric
  argument, each file operation, each allocation and each transfer returns success, and
  every entry is a command with its arguments), the interpreter returns 0, and so does
  \<^verbatim>\<open>main\<close>, whose value is the exit status. The hypothesis says nothing of the bytes read
  back for verification: whether and how often they differ from the bytes uploaded, the
  status is 0.
\<close>

theorem operations_succeed_means_status_zero:
  "(run_succeeds w argc argv 1 (stack\<lparr>cpu := False\<rparr>) tr
      \<longrightarrow> fst (cc1800_fiddle w argc argv stack tr) = 0)
   \<and> (main_succeeds w argv stack \<longrightarrow> fst (main w argv stack) = 0)"
proof
  show "run_succeeds w argc argv 1 (stack\<lparr>cpu := False\<rparr>) tr
      \<longrightarrow> fst (cc1800_fiddle w argc argv stack tr) = 0"
    unfolding cc1800_fiddle_fst by (blast intro: run_succeeds_returns_zero)
next
  show "main_succeeds w argv stack \<longrightarrow> fst (main w argv stack) = 0"
  proof
    assume m: "main_succeeds w argv stack"
    then obtain dev where dev: "cc1800_find w = Some dev"
      by (auto simp: main_succeeds_def split: option.splits)
    let ?tr = "[Printf Banner, Printf (FoundDevice (filename dev) (dirname dev)),
                      SetConfiguration 1]"
    from m dev have ok: "\<not> length argv < 2" "usb_open_ok w"
      "\<not> usb_set_configuration_ret w ?tr <s 0"
      "\<not> usb_claim_interface_ret w (?tr @ [ClaimInterface 0]) <s 0"
      "run_succeeds w (length argv) argv 1 (stack\<lparr>cpu := False\<rparr>) (?tr @ [ClaimInterface 0])"
      by (simp_all add: main_succeeds_def Let_def)
    have "fst (cc1800_fiddle w (length argv) argv stack (?tr @ [ClaimInterface 0])) = 0"
      unfolding cc1800_fiddle_fst by (rule run_succeeds_returns_zero [OF ok(5)])
    with dev ok(1-4) show "fst (main w argv stack) = 0"
      by (auto simp: main_def Let_def split: prod.splits)
  qed
qed


text \<open>
  Two \<^verbatim>\<open>write\<close> commands whose read-back differs in the last byte: every operation
  succeeds, both warnings are printed, and the exit status is 0. A download that fails
  is not a run in which every operation succeeds.
\<close>

theorem operations_succeed_means_status_zero_witness:
  "main_succeeds (bench_world ctl_ok 4 (4, [1, 2, 3, 9]) [1, 2, 3, 4])
      [''usbtool'', ''write'', ''0x1000'', ''payload.bin'', ''write'', ''0x2000'', ''payload.bin'']
      stack0
   \<and> main (bench_world ctl_ok 4 (4, [1, 2, 3, 9]) [1, 2, 3, 4])
      [''usbtool'', ''write'', ''0x1000'', ''payload.bin'', ''write'', ''0x2000'', ''payload.bin'']
      stack0
    = (0, [Printf Banner, Printf (FoundDevice ''004'' ''001''), SetConfiguration 1,
           ClaimInterface 0,
           GET_CPU_INFO_request, Printf (CpuInfo []), Printf (LoadedFile ''payload.bin'' 4),
           Printf (Uploading 0x1000), ControlMsg 0x40 1 0 0x1000 0 5000,
           ControlMsg 0x40 2 0x8000 4 0 5000, BulkWrite 1 [1, 2, 3, 4] 4 5000,
           Printf DownloadingVerify, ControlMsg 0x40 1 0 0x1000 0 5000,
           ControlMsg 0x40 2 0 4 0 5000, BulkRead 1 4 5000, Printf WarnMismatch,
           GET_CPU_INFO_request, Printf (LoadedFile ''payload.bin'' 4),
           Printf (Uploading 0x2000), ControlMsg 0x40 1 0 0x2000 0 5000,
           ControlMsg 0x40 2 0x8000 4 0 5000, BulkWrite 1 [1, 2, 3, 4] 4 5000,
           Printf DownloadingVerify, ControlMsg 0x40 1 0 0x2000 0 5000,
           ControlMsg 0x40 2 0 4 0 5000, BulkRead 1 4 5000, Printf WarnMismatch,
           UsbClose])
   \<and> fst (main (bench_world ctl_ok 4 (4, [1, 2, 3, 9]) [1, 2, 3, 4])
      [''usbtool'', ''write'', ''0x1000'', ''payload.bin'', ''write'', ''0x2000'', ''payload.bin'']
      stack0) = 0
   \<and> \<not> run_succeeds (bench_world ctl_ok 4 (- 5, []) [1, 2, 3, 4]) 4
      [''usbtool'', ''write'', ''0x1000'', ''payload.bin''] 1 (stack0\<lparr>cpu := False\<rparr>) []"
proof -
  let ?W = "bench_world ctl_ok 4 (4, [1, 2, 3, 9]) [1, 2, 3, 4]"
  let ?argv = "[''usbtool'', ''write'', ''0x1000'', ''payload.bin'',
                ''write'', ''0x2000'', ''payload.bin'']"
  have ok: "main_succeeds ?W ?argv stack0"
    by code_simp
  have run: "main ?W ?argv stack0
    = (0, [Printf Banner, Printf (FoundDevice ''004'' ''001''), SetConfiguration 1,
           ClaimInterface 0,
           GET_CPU_INFO_request, Printf (CpuInfo []), Printf (LoadedFile ''payload.bin'' 4),
           Printf (Uploading 0x1000), ControlMsg 0x40 1 0 0x1000 0 5000,
           ControlMsg 0x40 2 0x8000 4 0 5000, BulkWrite 1 [1, 2, 3, 4] 4 5000,
           Printf DownloadingVerify, ControlMsg 0x40 1 0 0x1000 0 5000,
           ControlMsg 0x40 2 0 4 0 5000, BulkRead 1 4 5000, Printf WarnMismatch,
           GET_CPU_INFO_request, Printf (LoadedFile ''payload.bin'' 4),
           Printf (Uploading 0x2000), ControlMsg 0x40 1 0 0x2000 0 5000,
           ControlMsg 0x40 2 0x8000 4 0 5000, BulkWrite 1 [1, 2, 3, 4] 4 5000,
           Printf DownloadingVerify, ControlMsg 0x40 1 0 0x2000 0 5000,
           ControlMsg 0x40 2 0 4 0 5000, BulkRead 1 4 5000, Printf WarnMismatch,
           UsbClose])"
    by code_simp
  have others: "\<not> run_succeeds (bench_world ctl_ok 4 (- 5, []) [1, 2, 3, 4]) 4
      [''usbtool'', ''write'', ''0x1000'', ''payload.bin''] 1 (stack0\<lparr>cpu := False\<rparr>) []"
    by code_simp
  from operations_succeed_means_status_zero [where w = ?W and argv = ?argv and stack = stack0
      and argc = 7 and tr = "[]"] ok
  have "fst (main ?W ?argv stack0) = 0"
    by blast
  with ok run others show ?thesis
    by blast
qed

section \<open>Numeric arguments\<close>

text \<open>
  C7 does not hold of the code. In the branch for decimal numbers \<^verbatim>\<open>scan_ulong\<close> returns
  0 when \<^verbatim>\<open>sscanf\<close> returns 0, and goes on to the error message otherwise: the decimal
  literal \<^verbatim>\<open>64\<close> is refused with \<^verbatim>\<open>bad value\<close> although it was converted, a word that
  is no number is accepted and leaves the variable as it was, and the command line
  \<^verbatim>\<open>usbtool read 0x2000 64 out.bin\<close> ends with -1. The branch for the \<^verbatim>\<open>0x\<close> prefix
  tests the same result the other way round and accepts \<^verbatim>\<open>0x40\<close>.
\<close>

theorem scan_ulong_rejects_decimal:
  "scan_ulong ''64'' (a :: 32 word) tr = (- 1, 64, tr @ [Stderr (ErrBadValue ''64'')])
   \<and> scan_ulong ''junk'' (a :: 32 word) tr = (0, a, tr)
   \<and> scan_ulong ''0x40'' (a :: 32 word) tr = (0, 64, tr)
   \<and> fst (main (bench_world ctl_ok 0 (64, []) [])
        [''usbtool'', ''read'', ''0x2000'', ''64'', ''out.bin''] stack0) = - 1"
  by code_simp



theorem scan_ulong_rejects_decimal_witness:
  "scan_ulong ''64'' (0 :: 32 word) [] = (- 1, 64, [Stderr (ErrBadValue ''64'')])
   \<and> scan_ulong ''junk'' (0 :: 32 word) [] = (0, 0, [])"
  using scan_ulong_rejects_decimal [of 0 "[]"] by simp

end
